theory Spec2Isabelle
  imports Main "HOL-Library.Word" "HOL-Library.AList"
begin

unbundle bit_operations_syntax

section \<open>Go run-time conventions\<close>

text \<open>
  A Go call either returns, panics (index or slice out of range, nil dereference, close of
  a closed channel) or blocks forever (a goroutine locking a mutex it already holds).
  The three are kept apart, so that "returns an error" and "panics" are different values.
\<close>

datatype 'a go = Ret 'a | Panics | Blocks

definition bind_go :: "'a go \<Rightarrow> ('a \<Rightarrow> 'b go) \<Rightarrow> 'b go" where
  "bind_go m f = (case m of Ret x \<Rightarrow> f x | Panics \<Rightarrow> Panics | Blocks \<Rightarrow> Blocks)"

text \<open>A partial run-time operation: \<open>None\<close> is the panic.\<close>

definition orPanic :: "'a option \<Rightarrow> ('a \<Rightarrow> 'b go) \<Rightarrow> 'b go" where
  "orPanic m f = (case m of None \<Rightarrow> Panics | Some x \<Rightarrow> f x)"

type_synonym byte = "8 word"

text \<open>Go's \<open>len\<close> is an \<open>int\<close>.\<close>

definition len :: "'a list \<Rightarrow> int" where
  "len xs = int (length xs)"

text \<open>
  Go's \<open>int\<close> is 64 bits wide and signed: a sum or difference outside the range wraps
  around. \<open>int64\<close> is the wrap; the model applies it where the code computes with sizes
  that come from the configuration.
\<close>

definition int64 :: "int \<Rightarrow> int" where
  "int64 x = signed_take_bit 63 x"

text \<open>\<open>xs[i]\<close>: panics unless \<open>0 \<le> i < len(xs)\<close>.\<close>

definition go_index :: "'a list \<Rightarrow> int \<Rightarrow> 'a option" where
  "go_index xs i = (if 0 \<le> i \<and> i < len xs then Some (xs ! nat i) else None)"

text \<open>
  \<open>xs[lo:hi]\<close>: panics unless \<open>0 \<le> lo \<le> hi\<close> and \<open>hi\<close> is within the slice. Go
  allows \<open>hi\<close> up to the capacity; the model allows it up to the length only, so the model
  panics wherever the code does.
\<close>

definition go_slice :: "'a list \<Rightarrow> int \<Rightarrow> int \<Rightarrow> 'a list option" where
  "go_slice xs lo hi =
     (if 0 \<le> lo \<and> lo \<le> hi \<and> hi \<le> len xs
      then Some (take (nat (hi - lo)) (drop (nat lo) xs)) else None)"

text \<open>\<open>binary.BigEndian.AppendUint16\<close> and \<open>binary.BigEndian.Uint16\<close>.\<close>

definition AppendUint16 :: "byte list \<Rightarrow> 16 word \<Rightarrow> byte list" where
  "AppendUint16 b v = b @ [ucast (drop_bit 8 v), ucast v]"

definition Uint16 :: "byte list \<Rightarrow> 16 word option" where
  "Uint16 b =
     (if len b < 2 then None
      else Some ((ucast (b ! 1) :: 16 word) OR push_bit 8 (ucast (b ! 0) :: 16 word)))"

definition Uint32 :: "byte list \<Rightarrow> 32 word option" where
  "Uint32 b =
     (if len b < 4 then None
      else Some ((ucast (b ! 3) :: 32 word) OR push_bit 8 (ucast (b ! 2) :: 32 word)
                 OR push_bit 16 (ucast (b ! 1) :: 32 word)
                 OR push_bit 24 (ucast (b ! 0) :: 32 word)))"

section \<open>Zero-overhead obfuscation\<close>

subsection \<open>The cryptographic primitives\<close>

text \<open>
  \<open>crypto/aes\<close> and \<open>golang.org/x/crypto/chacha20poly1305\<close> are libraries, not code of the
  repository. They are parameters of the model: a keyed block cipher on 16-byte blocks and
  a keyed AEAD with a 24-byte nonce and a 16-byte tag.
\<close>

record cipher_Block =
  encrypt_block :: "byte list \<Rightarrow> byte list"
  decrypt_block :: "byte list \<Rightarrow> byte list"

record cipher_AEAD =
  seal_fn :: "byte list \<Rightarrow> byte list \<Rightarrow> byte list"
  open_fn :: "byte list \<Rightarrow> byte list \<Rightarrow> byte list option"

record crypto =
  aes_NewCipher :: "byte list \<Rightarrow> cipher_Block"
  chacha20poly1305_NewX :: "byte list \<Rightarrow> cipher_AEAD"

definition BlockSize :: int where "BlockSize = 16"
definition Overhead :: int where "Overhead = 16"
definition NonceSizeX :: int where "NonceSizeX = 24"

text \<open>
  What the libraries promise: a block cipher maps a block to a block and decryption
  inverts encryption; sealing adds the 16-byte tag and opening inverts sealing under the
  same nonce.
\<close>

definition block_ok :: "cipher_Block \<Rightarrow> bool" where
  "block_ok c \<longleftrightarrow>
     (\<forall>b. length b = 16 \<longrightarrow>
        length (encrypt_block c b) = 16 \<and> length (decrypt_block c b) = 16 \<and>
        decrypt_block c (encrypt_block c b) = b)"

definition aead_ok :: "cipher_AEAD \<Rightarrow> bool" where
  "aead_ok a \<longleftrightarrow>
     (\<forall>n p. length n = 24 \<longrightarrow>
        length (seal_fn a n p) = length p + 16 \<and> open_fn a n (seal_fn a n p) = Some p)"

definition crypto_ok :: "crypto \<Rightarrow> bool" where
  "crypto_ok lib \<longleftrightarrow>
     (\<forall>k. length k = 32 \<longrightarrow>
        block_ok (aes_NewCipher lib k) \<and> aead_ok (chacha20poly1305_NewX lib k))"

text \<open>
  \<open>cipher.AEAD.Seal(dst, nonce, plaintext, nil)\<close> appends the sealed text to \<open>dst\<close> and
  panics on a nonce of the wrong length. \<open>Open\<close> panics likewise, fails on a ciphertext
  shorter than the tag, and otherwise appends the opened text to \<open>dst\<close>.
\<close>

definition aead_Seal :: "cipher_AEAD \<Rightarrow> byte list \<Rightarrow> byte list \<Rightarrow> byte list \<Rightarrow> byte list option" where
  "aead_Seal a dst nonce plaintext =
     (if len nonce \<noteq> NonceSizeX then None else Some (dst @ seal_fn a nonce plaintext))"

definition aead_Open ::
  "cipher_AEAD \<Rightarrow> byte list \<Rightarrow> byte list \<Rightarrow> byte list \<Rightarrow> byte list option option" where
  "aead_Open a dst nonce ciphertext =
     (if len nonce \<noteq> NonceSizeX then None
      else if len ciphertext < Overhead then Some None
      else Some (map_option (\<lambda>p. dst @ p) (open_fn a nonce ciphertext)))"

subsection \<open>Randomness and memory\<close>

text \<open>
  \<open>math/rand.Intn\<close> and \<open>crypto/rand.Read\<close> are inputs of the model: the raw draw behind
  \<open>Intn\<close>, and one byte source each for the padding and for the nonce. \<open>Intn(n)\<close> panics
  for \<open>n \<le> 0\<close> and otherwise returns a value of \<open>[0, n)\<close>; every such value is the result
  for some draw.

  The memory for the padding is an input too. The padding length is drawn from a headroom
  of up to \<open>2^63 - 1\<close>, and \<open>make([]byte, paddingLen)\<close> panics when the length is out of
  range for the runtime, or the runtime stops the process when it has no memory left.
  \<open>alloc_ok n\<close> says that a padding of \<open>n\<close> bytes gets its memory in this run. The other
  buffers of \<open>Encrypt\<close> and \<open>Decrypt\<close> are of the size of the packet the caller holds, and
  are taken to get theirs.
\<close>

record entropy =
  intn_draw :: nat
  padding_src :: "nat \<Rightarrow> byte"
  nonce_src :: "nat \<Rightarrow> byte"
  alloc_ok :: "int \<Rightarrow> bool"

definition rand_Intn :: "entropy \<Rightarrow> int \<Rightarrow> int option" where
  "rand_Intn e n = (if n \<le> 0 then None else Some (int (intn_draw e) mod n))"

definition rand_Read :: "(nat \<Rightarrow> byte) \<Rightarrow> int \<Rightarrow> byte list" where
  "rand_Read src n = map src [0..<nat n]"

text \<open>\<open>padding := make([]byte, paddingLen)\<close> and \<open>cryptorand.Read(padding)\<close>.\<close>

definition make_padding :: "entropy \<Rightarrow> int \<Rightarrow> byte list option" where
  "make_padding e paddingLen =
     (if alloc_ok e paddingLen then Some (rand_Read (padding_src e) paddingLen) else None)"

subsection \<open>The handler\<close>

datatype error =
    PSKLength                      \<comment> \<open>PSK must be 32 bytes\<close>
  | PacketTooLarge                 \<comment> \<open>control packet is too large\<close>
  | InvalidControlPacketLength     \<comment> \<open>invalid control packet length\<close>
  | AEADOpenFailed                 \<comment> \<open>the error of \<open>aead.Open\<close>\<close>
  | DecryptedTooSmall              \<comment> \<open>decrypted packet too small\<close>
  | InvalidPayloadLength           \<comment> \<open>invalid control packet payload length\<close>

text \<open>The nil \<open>cb\<close> and \<open>aead\<close> of a disabled handler are \<open>None\<close>.\<close>

record ZeroOverheadHandler =
  cb :: "cipher_Block option"
  aead :: "cipher_AEAD option"
  maxPacketSize :: int
  maxControlPacketSize :: int
  enabled :: bool

text \<open>
  \<open>maxPacketSize\<close> is a Go \<open>int\<close> the caller chooses; the subtractions wrap around.
\<close>

definition NewZeroOverheadHandler ::
  "crypto \<Rightarrow> byte list \<Rightarrow> int \<Rightarrow> bool \<Rightarrow> (error + ZeroOverheadHandler) go" where
  "NewZeroOverheadHandler lib psk maxPacketSize' enabled' =
     (if \<not> enabled' then
        Ret (Inr \<lparr>cb = None, aead = None, maxPacketSize = 0, maxControlPacketSize = 0,
                  enabled = False\<rparr>)
      else if len psk \<noteq> 32 then Ret (Inl PSKLength)
      else
        Ret (Inr \<lparr>cb = Some (aes_NewCipher lib psk),
                  aead = Some (chacha20poly1305_NewX lib psk),
                  maxPacketSize = maxPacketSize',
                  maxControlPacketSize =
                    int64 (int64 (int64 (maxPacketSize' - 2) - Overhead) - NonceSizeX),
                  enabled = True\<rparr>))"

definition MessageTypeRegister :: byte where "MessageTypeRegister = 1"
definition MessageTypeServerUpdate :: byte where "MessageTypeServerUpdate = 2"
definition MessageTypePing :: byte where "MessageTypePing = 3"
definition MessageTypePong :: byte where "MessageTypePong = 4"
definition MessageTypeQueryPeer :: byte where "MessageTypeQueryPeer = 5"
definition MessageTypeBroadcastPeer :: byte where "MessageTypeBroadcastPeer = 6"

text \<open>The \<open>switch messageType\<close> of \<open>Encrypt\<close> and \<open>Decrypt\<close>.\<close>

definition isControlPacket :: "byte \<Rightarrow> bool" where
  "isControlPacket messageType \<longleftrightarrow>
     messageType = MessageTypeRegister \<or> messageType = MessageTypeServerUpdate \<or>
     messageType = MessageTypePing \<or> messageType = MessageTypePong \<or>
     messageType = MessageTypeQueryPeer \<or> messageType = MessageTypeBroadcastPeer"

text \<open>The padding length of a control packet, from its headroom.\<close>

definition paddingLen_of :: "entropy \<Rightarrow> int \<Rightarrow> int option" where
  "paddingLen_of e paddingHeadroom =
     (if paddingHeadroom > 0 then map_option (\<lambda>r. 1 + r) (rand_Intn e paddingHeadroom)
      else Some 0)"

definition Encrypt :: "ZeroOverheadHandler \<Rightarrow> entropy \<Rightarrow> byte list \<Rightarrow> (error + byte list) go" where
  "Encrypt h e packet =
     (if \<not> enabled h then Ret (Inr packet)
      else if len packet < BlockSize then Ret (Inr packet)
      else
        orPanic (go_index packet 0) (\<lambda>messageType.
        orPanic (cb h) (\<lambda>c.
        orPanic (go_slice packet 0 BlockSize) (\<lambda>block.
        let dst = encrypt_block c block in
        orPanic (go_slice packet BlockSize (len packet)) (\<lambda>remainingPayload.
        let plaintextStart = len dst;
            dst = dst @ remainingPayload
        in
        if \<not> isControlPacket messageType then Ret (Inr dst)
        else
          let paddingHeadroom = int64 (maxControlPacketSize h - len packet) in
          if paddingHeadroom < 0 \<or> len remainingPayload > 65535 then Ret (Inl PacketTooLarge)
          else
            orPanic (paddingLen_of e paddingHeadroom) (\<lambda>paddingLen.
            orPanic (if paddingLen > 0
                     then map_option (\<lambda>padding. dst @ padding) (make_padding e paddingLen)
                     else Some dst) (\<lambda>dst.
            let dst = AppendUint16 dst (word_of_int (len remainingPayload));
                nonce = rand_Read (nonce_src e) NonceSizeX
            in
            orPanic (go_slice dst plaintextStart (len dst)) (\<lambda>plaintext.
            orPanic (go_slice dst 0 plaintextStart) (\<lambda>head.
            orPanic (aead h) (\<lambda>a.
            orPanic (aead_Seal a head nonce plaintext) (\<lambda>dst.
            Ret (Inr (dst @ nonce)))))))))))))"

definition Decrypt :: "ZeroOverheadHandler \<Rightarrow> byte list \<Rightarrow> (error + byte list) go" where
  "Decrypt h packet =
     (if \<not> enabled h then Ret (Inr packet)
      else if len packet < BlockSize then Ret (Inr packet)
      else
        orPanic (cb h) (\<lambda>c.
        orPanic (go_slice packet 0 BlockSize) (\<lambda>block.
        let dst = decrypt_block c block in
        orPanic (go_index dst 0) (\<lambda>messageType.
        if \<not> isControlPacket messageType then
          orPanic (go_slice packet BlockSize (len packet)) (\<lambda>rest. Ret (Inr (dst @ rest)))
        else
          let minControlPacketLen = BlockSize + 2 + Overhead + NonceSizeX in
          if len packet < minControlPacketLen then Ret (Inl InvalidControlPacketLength)
          else
            let dstLen = len dst;
                nonceStart = len packet - NonceSizeX
            in
            orPanic (go_slice packet nonceStart (len packet)) (\<lambda>nonce.
            orPanic (go_slice packet BlockSize nonceStart) (\<lambda>ciphertext.
            orPanic (aead h) (\<lambda>a.
            orPanic (aead_Open a dst nonce ciphertext) (\<lambda>opened.
            case opened of
              None \<Rightarrow> Ret (Inl AEADOpenFailed)
            | Some plaintext \<Rightarrow>
                if len plaintext < 2 then Ret (Inl DecryptedTooSmall)
                else
                  let paddingEnd = len plaintext - 2 in
                  orPanic (go_slice plaintext paddingEnd (len plaintext)) (\<lambda>lenBytes.
                  orPanic (Uint16 lenBytes) (\<lambda>v.
                  let remainingPayloadSize = uint v;
                      dstLen = dstLen + remainingPayloadSize
                  in
                  if dstLen > paddingEnd then Ret (Inl InvalidPayloadLength)
                  else orPanic (go_slice plaintext 0 dstLen) (\<lambda>out. Ret (Inr out))))))))))))"

subsection \<open>A small instance of the primitives\<close>

text \<open>
  To run the model on concrete packets the primitives need an instance. This one meets
  the contract \<open>crypto_ok\<close> and nothing more: the block cipher xors the block with the
  key, the AEAD appends the first 16 key bytes as its tag and checks them on opening.
\<close>

definition toy_Block :: "byte list \<Rightarrow> cipher_Block" where
  "toy_Block k =
     \<lparr>encrypt_block = (\<lambda>b. map2 (XOR) b k), decrypt_block = (\<lambda>b. map2 (XOR) b k)\<rparr>"

definition toy_AEAD :: "byte list \<Rightarrow> cipher_AEAD" where
  "toy_AEAD k =
     \<lparr>seal_fn = (\<lambda>n p. p @ take 16 k),
      open_fn = (\<lambda>n c. if 16 \<le> length c \<and> drop (length c - 16) c = take 16 k
                        then Some (take (length c - 16) c) else None)\<rparr>"

definition toy_crypto :: crypto where
  "toy_crypto = \<lparr>aes_NewCipher = toy_Block, chacha20poly1305_NewX = toy_AEAD\<rparr>"

definition toy_psk :: "byte list" where
  "toy_psk =
     [0xA5, 0xA5, 0xA5, 0xA5, 0xA5, 0xA5, 0xA5, 0xA5, 0xA5, 0xA5, 0xA5, 0xA5, 0xA5, 0xA5, 0xA5, 0xA5,
      0xA5, 0xA5, 0xA5, 0xA5, 0xA5, 0xA5, 0xA5, 0xA5, 0xA5, 0xA5, 0xA5, 0xA5, 0xA5, 0xA5, 0xA5, 0xA5]"

text \<open>The handler \<open>NewZeroOverheadHandler\<close> builds from this instance.\<close>

definition toy_handler :: "int \<Rightarrow> ZeroOverheadHandler" where
  "toy_handler mps =
     \<lparr>cb = Some (toy_Block toy_psk), aead = Some (toy_AEAD toy_psk), maxPacketSize = mps,
      maxControlPacketSize = int64 (int64 (int64 (mps - 2) - 16) - 24), enabled = True\<rparr>"

definition toy_entropy :: entropy where
  "toy_entropy =
     \<lparr>intn_draw = 0, padding_src = (\<lambda>i. 0xEE), nonce_src = (\<lambda>i. word_of_nat i),
      alloc_ok = (\<lambda>n. True)\<rparr>"

definition ping_packet :: "byte list" where
  "ping_packet = [3, 1, 2, 3, 4, 5, 6, 7, 8, 9, 10, 11, 12, 13, 14, 15, 16, 17]"

definition data_packet :: "byte list" where
  "data_packet = [0, 1, 2, 3, 4, 5, 6, 7, 8, 9, 10, 11, 12, 13, 14, 15, 16, 17]"

section \<open>Pseudo-TCP packet codec\<close>

definition IPv4HeaderLen :: int where "IPv4HeaderLen = 20"
definition IPv6HeaderLen :: int where "IPv6HeaderLen = 40"
definition TCPHeaderLen :: int where "TCPHeaderLen = 20"

definition FIN :: byte where "FIN = push_bit 0 1"
definition SYN :: byte where "SYN = push_bit 1 1"
definition RST :: byte where "RST = push_bit 2 1"
definition PSH :: byte where "PSH = push_bit 3 1"
definition ACK :: byte where "ACK = push_bit 4 1"
definition URG :: byte where "URG = push_bit 5 1"

text \<open>A \<open>net.IP\<close> is a byte slice; nil is the empty list.\<close>

record TCPPacket =
  SrcIP :: "byte list"
  DstIP :: "byte list"
  SrcPort :: "16 word"
  DstPort :: "16 word"
  Seq :: "32 word"
  Ack :: "32 word"
  Flags :: byte
  Window :: "16 word"
  Payload :: "byte list"
  IsIPv6 :: bool

text \<open>The zero value of \<open>var pkt TCPPacket\<close>.\<close>

definition zero_TCPPacket :: TCPPacket where
  "zero_TCPPacket =
     \<lparr>SrcIP = [], DstIP = [], SrcPort = 0, DstPort = 0, Seq = 0, Ack = 0, Flags = 0,
      Window = 0, Payload = [], IsIPv6 = False\<rparr>"

text \<open>\<open>binary.BigEndian.Uint16(b[lo:hi])\<close> and \<open>Uint32\<close>: the slice, then the read.\<close>

definition sliceUint16 :: "byte list \<Rightarrow> int \<Rightarrow> int \<Rightarrow> 16 word option" where
  "sliceUint16 b lo hi = (case go_slice b lo hi of None \<Rightarrow> None | Some s \<Rightarrow> Uint16 s)"

definition sliceUint32 :: "byte list \<Rightarrow> int \<Rightarrow> int \<Rightarrow> 32 word option" where
  "sliceUint32 b lo hi = (case go_slice b lo hi of None \<Rightarrow> None | Some s \<Rightarrow> Uint32 s)"

text \<open>
  The second half of \<open>ParseTCPPacket\<close>, from the protocol check on: it is the same
  for both IP versions, which differ in \<open>pkt\<close>, \<open>proto\<close> and \<open>tcpStart\<close>.
\<close>

definition parseTCPSegment :: "byte list \<Rightarrow> TCPPacket \<Rightarrow> byte \<Rightarrow> int \<Rightarrow> TCPPacket option go" where
  "parseTCPSegment buf pkt proto tcpStart =
     (if proto \<noteq> 6 then Ret None
      else if len buf < tcpStart + TCPHeaderLen then Ret None
      else
        orPanic (go_slice buf tcpStart (len buf)) (\<lambda>tcpBuf.
        orPanic (sliceUint16 tcpBuf 0 2) (\<lambda>srcPort.
        orPanic (sliceUint16 tcpBuf 2 4) (\<lambda>dstPort.
        orPanic (sliceUint32 tcpBuf 4 8) (\<lambda>seq'.
        orPanic (sliceUint32 tcpBuf 8 12) (\<lambda>ack'.
        orPanic (go_index tcpBuf 12) (\<lambda>b12.
        let dataOffset = drop_bit 4 b12 * 4 in
        orPanic (go_index tcpBuf 13) (\<lambda>flags.
        orPanic (sliceUint16 tcpBuf 14 16) (\<lambda>window.
        let pkt = pkt\<lparr>SrcPort := srcPort, DstPort := dstPort, Seq := seq', Ack := ack',
                       Flags := flags, Window := window\<rparr>
        in
        if uint dataOffset < len tcpBuf then
          orPanic (go_slice tcpBuf (uint dataOffset) (len tcpBuf)) (\<lambda>payload.
          Ret (Some (pkt\<lparr>Payload := payload\<rparr>)))
        else Ret (Some pkt))))))))))"

definition ParseTCPPacket :: "byte list \<Rightarrow> TCPPacket option go" where
  "ParseTCPPacket buf =
     (if len buf < IPv4HeaderLen then Ret None
      else
        orPanic (go_index buf 0) (\<lambda>b0.
        let version = drop_bit 4 b0 in
        if version = 4 then
          (if len buf < IPv4HeaderLen then Ret None
           else
             orPanic (go_slice buf 12 16) (\<lambda>src.
             orPanic (go_slice buf 16 20) (\<lambda>dst.
             orPanic (go_index buf 9) (\<lambda>proto.
             parseTCPSegment buf (zero_TCPPacket\<lparr>IsIPv6 := False, SrcIP := src, DstIP := dst\<rparr>)
               proto IPv4HeaderLen))))
        else if version = 6 then
          (if len buf < IPv6HeaderLen then Ret None
           else
             orPanic (go_slice buf 8 24) (\<lambda>src.
             orPanic (go_slice buf 24 40) (\<lambda>dst.
             orPanic (go_index buf 6) (\<lambda>proto.
             parseTCPSegment buf (zero_TCPPacket\<lparr>IsIPv6 := True, SrcIP := src, DstIP := dst\<rparr>)
               proto IPv6HeaderLen))))
        else Ret None))"

text \<open>
  The reasons for a nil result, in the words of the claim: the fields of the IP header
  the parser looks at, and the condition under which it gives up.
\<close>

definition ip_version :: "byte list \<Rightarrow> byte" where
  "ip_version buf = drop_bit 4 (buf ! 0)"

definition ip_header_len :: "byte list \<Rightarrow> nat" where
  "ip_header_len buf = (if ip_version buf = 4 then 20 else 40)"

definition ip_protocol :: "byte list \<Rightarrow> byte" where
  "ip_protocol buf = (if ip_version buf = 4 then buf ! 9 else buf ! 6)"

definition tcp_data_offset :: "byte list \<Rightarrow> nat" where
  "tcp_data_offset buf = unat (drop_bit 4 (buf ! (ip_header_len buf + 12)) * 4)"

definition not_a_tcp_packet :: "byte list \<Rightarrow> bool" where
  "not_a_tcp_packet buf \<longleftrightarrow>
     length buf < 20 \<or>
     (ip_version buf \<noteq> 4 \<and> ip_version buf \<noteq> 6) \<or>
     length buf < ip_header_len buf \<or>
     ip_protocol buf \<noteq> 6 \<or>
     length buf < ip_header_len buf + 20"

section \<open>Pseudo-TCP socket\<close>

definition RetryCount :: nat where "RetryCount = 6"
definition MaxUnackedLen :: nat where "MaxUnackedLen = 128 * 1024 * 1024"

datatype ConnState = StateIdle | StateSynSent | StateSynReceived | StateEstablished | StateClosed

record UDPAddr =
  IP :: "byte list"
  Port :: int

text \<open>
  The socket. Its \<open>stack\<close> and \<open>tun\<close> pointers are the flag \<open>has_stack\<close> (the stack is
  not nil) and the index of the device among the stack's; \<open>closeChan\<close> is true once the
  channel is closed. The \<open>incoming\<close> channel is fed by other goroutines: what a receive
  on it yields is an input of the operations below.
\<close>

record Socket =
  has_stack :: bool
  tun :: nat
  localAddr :: UDPAddr
  remoteAddr :: UDPAddr
  seq :: "32 word"
  ack :: "32 word"
  lastAck :: "32 word"
  state :: ConnState
  closed :: bool
  closeChan :: bool

text \<open>\<open>rand.Uint32()\<close> is the argument \<open>isn\<close>.\<close>

definition newSocket ::
  "bool \<Rightarrow> nat \<Rightarrow> UDPAddr \<Rightarrow> UDPAddr \<Rightarrow> 32 word \<Rightarrow> ConnState \<Rightarrow> 32 word \<Rightarrow> Socket" where
  "newSocket stack' tun' localAddr' remoteAddr' initialAck state' isn =
     \<lparr>has_stack = stack', tun = tun', localAddr = localAddr', remoteAddr = remoteAddr',
      seq = isn, ack = initialAck, lastAck = initialAck, state = state', closed = False,
      closeChan = False\<rparr>"

datatype sock_error =
    NotIdle                        \<comment> \<open>socket not in idle state\<close>
  | ClosedDuringConnect            \<comment> \<open>socket closed during connect\<close>
  | ConnectionTimeout nat          \<comment> \<open>connection timeout after n retries\<close>
  | NotEstablished ConnState       \<comment> \<open>socket not established (state: s)\<close>
  | SocketClosed                   \<comment> \<open>socket closed\<close>
  | SendFailed                     \<comment> \<open>failed to send data\<close>
  | IPv6NotConfigured              \<comment> \<open>IPv6 not configured\<close>

text \<open>
  \<open>sendPacket\<close> hands \<open>BuildTCPPacket(localAddr, remoteAddr, seq, ack, flags, payload)\<close> to
  \<open>tun.Write\<close> and returns the error of the write. No claim reads the bytes of the
  packet, so a sent packet is recorded by the arguments of \<open>BuildTCPPacket\<close>; the outcome
  of the write is an input.
\<close>

record segment =
  seg_local :: UDPAddr
  seg_remote :: UDPAddr
  seg_seq :: "32 word"
  seg_ack :: "32 word"
  seg_flags :: byte
  seg_payload :: "byte list"

definition sendPacket :: "Socket \<Rightarrow> byte \<Rightarrow> byte list \<Rightarrow> segment" where
  "sendPacket s flags payload =
     \<lparr>seg_local = localAddr s, seg_remote = remoteAddr s, seg_seq = seq s, seg_ack = ack s,
      seg_flags = flags, seg_payload = payload\<rparr>"

text \<open>
  \<open>time.Duration\<close> counts nanoseconds.
\<close>

definition Second :: nat where "Second = 1000000000"
definition ConnTimeout :: nat where "ConnTimeout = 3 * Second"

text \<open>
  \<open>Tun.Write\<close> takes the read lock of the device before it writes. It returns the
  number of bytes, or an error (the device is closed, or the file refuses the write), or
  it does not return: the read lock is not granted while a \<open>Tun.Close\<close> waits for the
  write lock behind a reader that sits in \<open>Read\<close>.
\<close>

datatype write_result = Written | WriteError | WriteBlocked

text \<open>
  What one turn of the loop of \<open>Connect\<close> meets: the outcome of the write of the SYN,
  which case of the \<open>select\<close> fires (a packet on \<open>incoming\<close>, the timer after
  \<open>ConnTimeout\<close>, or \<open>closeChan\<close>) and after how long, and the outcome of the write of
  the ACK.
\<close>

datatype select_event = Incoming "byte list" | TimedOut | CloseChan

record attempt =
  syn_write :: write_result
  select :: select_event
  waited :: nat
  ack_write :: write_result

text \<open>
  How long the \<open>select\<close> of a turn waits. The timer fires after \<open>ConnTimeout\<close>; another
  case fires only while the timer has not, so it has waited \<open>ConnTimeout\<close> at most.
\<close>

definition select_time :: "attempt \<Rightarrow> nat" where
  "select_time a = (case select a of TimedOut \<Rightarrow> ConnTimeout | _ \<Rightarrow> min (waited a) ConnTimeout)"

text \<open>
  \<open>closeChan\<close> is closed by \<open>Close\<close> only, run by another goroutine, after it has set the
  \<open>closed\<close> flag and the state.
\<close>

definition closed_by_Close :: "Socket \<Rightarrow> Socket" where
  "closed_by_Close s = s\<lparr>closed := True, state := StateClosed, closeChan := True\<rparr>"

text \<open>
  The loop \<open>for i := 0; i < RetryCount; i++\<close> of \<open>Connect\<close>. The result is the error (or
  none), the socket, the packets handed to \<open>sendPacket\<close> so far, and the time each turn
  so far has spent waiting: in \<open>time.Sleep(ConnTimeout)\<close> after a failed write of the
  SYN, in the \<open>select\<close> otherwise.
\<close>

function connect_loop ::
  "(nat \<Rightarrow> attempt) \<Rightarrow> nat \<Rightarrow> Socket \<Rightarrow> segment list \<Rightarrow> nat list \<Rightarrow>
     (sock_error option \<times> Socket \<times> segment list \<times> nat list) go" where
  "connect_loop env i s sent waits =
     (if i < RetryCount then
        let sent1 = sent @ [sendPacket s SYN []] in
        (case syn_write (env i) of
           WriteBlocked \<Rightarrow> Blocks
         | WriteError \<Rightarrow> connect_loop env (i + 1) s sent1 (waits @ [ConnTimeout])
         | Written \<Rightarrow>
             let waits1 = waits @ [select_time (env i)] in
             (case select (env i) of
                Incoming data \<Rightarrow>
                  (case ParseTCPPacket data of
                     Panics \<Rightarrow> Panics
                   | Blocks \<Rightarrow> Blocks
                   | Ret None \<Rightarrow> connect_loop env (i + 1) s sent1 waits1
                   | Ret (Some pkt) \<Rightarrow>
                       if Flags pkt = (SYN OR ACK) then
                         let s1 = s\<lparr>seq := seq s + 1, ack := Seq pkt + 1,
                                     lastAck := Seq pkt + 1\<rparr>;
                             sent2 = sent1 @ [sendPacket s1 ACK []]
                         in
                         (case ack_write (env i) of
                            WriteBlocked \<Rightarrow> Blocks
                          | WriteError \<Rightarrow> connect_loop env (i + 1) s1 sent2 waits1
                          | Written \<Rightarrow> Ret (None, s1\<lparr>state := StateEstablished\<rparr>, sent2, waits1))
                       else connect_loop env (i + 1) s sent1 waits1)
              | TimedOut \<Rightarrow> connect_loop env (i + 1) s sent1 waits1
              | CloseChan \<Rightarrow> Ret (Some ClosedDuringConnect, closed_by_Close s, sent1, waits1)))
      else Ret (Some (ConnectionTimeout RetryCount), s\<lparr>state := StateClosed\<rparr>, sent, waits))"
  by pat_completeness auto
termination
  by (relation "measure (\<lambda>(env, i, s, sent, waits). RetryCount - i)") auto

declare connect_loop.simps [simp del]

definition Socket_Connect ::
  "Socket \<Rightarrow> (nat \<Rightarrow> attempt) \<Rightarrow>
     (sock_error option \<times> Socket \<times> segment list \<times> nat list) go" where
  "Socket_Connect s env =
     (if state s \<noteq> StateIdle then Ret (Some NotIdle, s, [], [])
      else connect_loop env 0 (s\<lparr>state := StateSynSent\<rparr>) [] [])"

text \<open>The time turn \<open>i\<close> spends waiting when it ends neither the handshake nor the call.\<close>

definition turn_wait :: "attempt \<Rightarrow> nat" where
  "turn_wait a = (case syn_write a of WriteError \<Rightarrow> ConnTimeout | _ \<Rightarrow> select_time a)"

text \<open>\<open>Send\<close>; \<open>write_fails\<close> is the outcome of \<open>tun.Write\<close>.\<close>

definition Send :: "Socket \<Rightarrow> bool \<Rightarrow> byte list \<Rightarrow> sock_error option \<times> Socket \<times> segment list" where
  "Send s write_fails data =
     (if state s \<noteq> StateEstablished then (Some (NotEstablished (state s)), s, [])
      else if closed s then (Some SocketClosed, s, [])
      else if write_fails then (Some SendFailed, s, [sendPacket s ACK data])
      else (None, s\<lparr>seq := seq s + word_of_int (len data)\<rparr>, [sendPacket s ACK data]))"

text \<open>
  A caller sending one payload after the other, whatever each \<open>Send\<close> returns. The
  result is the socket and the number of bytes of the sends that succeeded.
\<close>

fun Send_all :: "Socket \<Rightarrow> (bool \<times> byte list) list \<Rightarrow> Socket \<times> nat" where
  "Send_all s [] = (s, 0)"
| "Send_all s ((write_fails, data) # rest) =
     (case Send s write_fails data of
        (None, s', _) \<Rightarrow> (case Send_all s' rest of (s'', n) \<Rightarrow> (s'', length data + n))
      | (Some _, s', _) \<Rightarrow> Send_all s' rest)"

text \<open>
  "No SYN|ACK arrives" for one turn of the loop: the packet taken from \<open>incoming\<close>, if
  any, does not parse or does not carry exactly the flags SYN|ACK.
\<close>

definition no_synack :: "attempt \<Rightarrow> bool" where
  "no_synack a =
     (case select a of
        Incoming data \<Rightarrow>
          (case ParseTCPPacket data of
             Ret (Some pkt) \<Rightarrow> Flags pkt \<noteq> (SYN OR ACK)
           | _ \<Rightarrow> True)
      | _ \<Rightarrow> True)"

section \<open>Pseudo-TCP stack\<close>

text \<open>
  The key of the socket map is the pair of the two addresses as \<open>UDPAddr.String()\<close>
  prints them. \<open>String\<close> is library code and is the parameter \<open>str\<close> of the operations.
\<close>

type_synonym addrTuple = "string \<times> string"

definition newAddrTuple :: "(UDPAddr \<Rightarrow> string) \<Rightarrow> UDPAddr \<Rightarrow> UDPAddr \<Rightarrow> addrTuple" where
  "newAddrTuple str local remote = (str local, str remote)"

text \<open>
  Of a TUN device the \<open>closed\<close> flag and its lock are modelled; its file is the
  environment. The packet reader of the stack holds the read lock of the device while it
  sits in \<open>Read\<close>; \<open>reader_keeps_lock\<close> says that it does so and that no packet will end
  the read. \<open>Tun.Close\<close> takes the write lock first, so it does not return behind such a
  reader.
\<close>

record Tun =
  tun_closed :: bool
  reader_keeps_lock :: bool

definition Tun_Close :: "Tun \<Rightarrow> Tun go" where
  "Tun_Close t =
     (if reader_keeps_lock t then Blocks
      else if tun_closed t then Ret t
      else Ret (t\<lparr>tun_closed := True\<rparr>))"

text \<open>The loop \<open>for _, tun := range s.tuns { tun.Close() }\<close>.\<close>

fun close_tuns :: "Tun list \<Rightarrow> Tun list go" where
  "close_tuns [] = Ret []"
| "close_tuns (t # ts) =
     bind_go (Tun_Close t) (\<lambda>t'. bind_go (close_tuns ts) (\<lambda>ts'. Ret (t' # ts')))"

text \<open>
  The stack. Sockets are shared by pointer between the map, the callers and the sockets'
  own goroutines, so the map holds references into a store \<open>heap\<close> of all sockets;
  \<open>next_ref\<close> is the first unused reference. \<open>stopChan\<close> is true once the channel is
  closed, \<open>mu\<close> is true while the mutex is held. The packet readers and \<open>acceptQueue\<close>
  are other goroutines and are not part of the state.
\<close>

record Stack =
  tuns :: "Tun list"
  localIPv4 :: "byte list"
  localIPv6 :: "byte list"
  listening :: "16 word \<Rightarrow> bool"
  sockets :: "(addrTuple \<times> nat) list"
  stopChan :: bool
  mu :: bool
  heap :: "nat \<Rightarrow> Socket"
  next_ref :: nat

definition NewStack :: "Tun list \<Rightarrow> byte list \<Rightarrow> byte list \<Rightarrow> Stack" where
  "NewStack tuns' localIPv4' localIPv6' =
     \<lparr>tuns = tuns', localIPv4 = localIPv4', localIPv6 = localIPv6',
      listening = (\<lambda>port. False), sockets = [], stopChan = False, mu = False,
      heap = (\<lambda>r. newSocket False 0 \<lparr>IP = [], Port = 0\<rparr> \<lparr>IP = [], Port = 0\<rparr> 0 StateClosed 0),
      next_ref = 0\<rparr>"

text \<open>
  \<open>s.mu.Lock()\<close>: the model runs one call at a time, so a mutex that is held is held by
  the caller itself, and locking it again never returns (\<open>sync.RWMutex\<close> is not
  reentrant).
\<close>

definition mu_Lock :: "Stack \<Rightarrow> Stack go" where
  "mu_Lock st = (if mu st then Blocks else Ret (st\<lparr>mu := True\<rparr>))"

definition mu_Unlock :: "Stack \<Rightarrow> Stack" where
  "mu_Unlock st = st\<lparr>mu := False\<rparr>"

definition unregisterSocket :: "(UDPAddr \<Rightarrow> string) \<Rightarrow> Stack \<Rightarrow> UDPAddr \<Rightarrow> UDPAddr \<Rightarrow> Stack go" where
  "unregisterSocket str st localAddr' remoteAddr' =
     (let tuple = newAddrTuple str localAddr' remoteAddr' in
      bind_go (mu_Lock st) (\<lambda>st.
      Ret (mu_Unlock (st\<lparr>sockets := AList.delete tuple (sockets st)\<rparr>))))"

text \<open>
  \<open>Socket.Close\<close> of the socket at reference \<open>r\<close>. \<open>close(s.closeChan)\<close> panics on a
  closed channel.
\<close>

definition Socket_Close :: "(UDPAddr \<Rightarrow> string) \<Rightarrow> Stack \<Rightarrow> nat \<Rightarrow> Stack go" where
  "Socket_Close str st r =
     (let s = heap st r in
      if closed s then Ret st
      else if closeChan s then Panics
      else
        let s = closed_by_Close s;
            st = st\<lparr>heap := (heap st)(r := s)\<rparr>
        in
        if has_stack s then unregisterSocket str st (localAddr s) (remoteAddr s)
        else Ret st)"




text \<open>The loop \<open>for _, sock := range s.sockets { sock.Close() }\<close>.\<close>

fun close_each :: "(UDPAddr \<Rightarrow> string) \<Rightarrow> nat list \<Rightarrow> Stack \<Rightarrow> Stack go" where
  "close_each str [] st = Ret st"
| "close_each str (r # rs) st = bind_go (Socket_Close str st r) (close_each str rs)"

text \<open>
  \<open>Stack.Close\<close>. \<open>close(s.stopChan)\<close> panics on a closed channel. Once every device is
  closed its reader leaves \<open>Read\<close> with an error, sees \<open>stopChan\<close> closed and ends, so
  \<open>s.wg.Wait()\<close> returns. The sockets are closed while the mutex is held.
\<close>

definition Stack_Close :: "(UDPAddr \<Rightarrow> string) \<Rightarrow> Stack \<Rightarrow> Stack go" where
  "Stack_Close str st =
     (if stopChan st then Panics
      else
        let st = st\<lparr>stopChan := True\<rparr> in
        bind_go (close_tuns (tuns st)) (\<lambda>tuns'.
        let st = st\<lparr>tuns := tuns'\<rparr> in
        bind_go (mu_Lock st) (\<lambda>st.
        bind_go (close_each str (map snd (sockets st)) st) (\<lambda>st.
        Ret (mu_Unlock (st\<lparr>sockets := []\<rparr>))))))"

subsection \<open>Concrete sockets, packets and stacks\<close>

definition example_socket :: Socket where
  "example_socket =
     newSocket True 0 \<lparr>IP = [10, 0, 0, 1], Port = 3001\<rparr> \<lparr>IP = [10, 0, 0, 2], Port = 443\<rparr>
       0 StateIdle 0xFFFFFFFE"

definition established_socket :: Socket where
  "established_socket = example_socket\<lparr>state := StateEstablished\<rparr>"

text \<open>Nothing arrives and every wait runs into the timer; or the socket is closed meanwhile.\<close>

definition env_silent :: "nat \<Rightarrow> attempt" where
  "env_silent i =
     \<lparr>syn_write = Written, select = TimedOut, waited = ConnTimeout, ack_write = Written\<rparr>"

definition env_closing :: "nat \<Rightarrow> attempt" where
  "env_closing i =
     \<lparr>syn_write = Written, select = CloseChan, waited = Second, ack_write = Written\<rparr>"

text \<open>The first write to the device never returns.\<close>

definition env_blocked :: "nat \<Rightarrow> attempt" where
  "env_blocked i =
     \<lparr>syn_write = WriteBlocked, select = TimedOut, waited = ConnTimeout, ack_write = Written\<rparr>"

text \<open>An IPv4 packet with a 20-byte TCP header, flags SYN|ACK, and no payload.\<close>

definition syn_ack_packet :: "byte list" where
  "syn_ack_packet =
     [0x45, 0, 0, 40, 0, 0, 0x40, 0, 64, 6, 0, 0, 10, 0, 0, 2, 10, 0, 0, 1,
      0x01, 0xBB, 0x0B, 0xB9, 0, 0, 0, 7, 0xFF, 0xFF, 0xFF, 0xFF, 0x50, 0x12, 0xFF, 0xFF,
      0, 0, 0, 0]"

definition example_stack :: Stack where
  "example_stack =
     NewStack [\<lparr>tun_closed = False, reader_keeps_lock = False\<rparr>] [10, 0, 0, 1] []"


text \<open>A stand-in for \<open>UDPAddr.String\<close>; any function will do.\<close>

definition example_str :: "UDPAddr \<Rightarrow> string" where
  "example_str a = map (\<lambda>b. char_of (unat b)) (IP a) @ [char_of (nat (Port a) mod 256)]"

section \<open>Properties of the run-time operations\<close>

lemma orPanic_Some: "orPanic (Some x) f = f x"
  by (simp add: orPanic_def)

lemma Uint16_AppendUint16: "Uint16 (AppendUint16 [] v) = Some v"
  unfolding Uint16_def AppendUint16_def len_def
  apply simp
  apply (rule bit_word_eqI)
  apply (auto simp add: bit_simps)
  done

lemma uint_len16: "0 \<le> n \<Longrightarrow> n \<le> 65535 \<Longrightarrow> uint (word_of_int n :: 16 word) = n"
  by (simp add: uint_word_of_int)

lemma isControlPacket_iff: "isControlPacket b \<longleftrightarrow> b \<in> {1, 2, 3, 4, 5, 6}"
  by (auto simp add: isControlPacket_def MessageTypeRegister_def MessageTypeServerUpdate_def
      MessageTypePing_def MessageTypePong_def MessageTypeQueryPeer_def MessageTypeBroadcastPeer_def)

section \<open>Properties of the obfuscator\<close>

subsection \<open>The instance meets the contract\<close>

lemma xor_twice: "length b \<le> length k \<Longrightarrow> map2 (XOR) (map2 (XOR) b k) k = (b :: byte list)"
proof (induction b arbitrary: k)
  case Nil
  then show ?case by simp
next
  case (Cons x b)
  then show ?case by (cases k) (simp_all add: xor.assoc)
qed

lemma toy_crypto_ok: "crypto_ok toy_crypto"
  by (auto simp add: crypto_ok_def block_ok_def aead_ok_def toy_crypto_def toy_Block_def toy_AEAD_def xor_twice)

lemmas toy_defs = toy_handler_def toy_entropy_def toy_Block_def toy_AEAD_def toy_psk_def toy_crypto_def

lemmas go_defs = BlockSize_def Overhead_def NonceSizeX_def len_def go_index_def go_slice_def orPanic_def
   aead_Seal_def aead_Open_def rand_Read_def rand_Intn_def paddingLen_of_def make_padding_def
   AppendUint16_def Uint16_def

lemma New_toy: "NewZeroOverheadHandler toy_crypto toy_psk mps True = Ret (Inr (toy_handler mps))"
  by (simp add: NewZeroOverheadHandler_def toy_defs go_defs)

subsection \<open>What the constructor returns\<close>

lemma New_enabled:
  assumes "crypto_ok lib" "NewZeroOverheadHandler lib psk mps True = Ret (Inr h)"
  shows "enabled h" "\<exists>c. cb h = Some c \<and> block_ok c" "\<exists>a. aead h = Some a \<and> aead_ok a"
     "maxControlPacketSize h = int64 (int64 (int64 (mps - 2) - 16) - 24)" "maxPacketSize h = mps"
  using assms
  by (auto simp add: NewZeroOverheadHandler_def crypto_ok_def len_def Overhead_def NonceSizeX_def split: if_splits)

lemma int64_id: "- (2 ^ 63) \<le> x \<Longrightarrow> x < 2 ^ 63 \<Longrightarrow> int64 x = x"
  by (simp add: int64_def signed_take_bit_int_eq_self)

lemma maxControlPacketSize_no_wrap:
  assumes "- (2 ^ 63) + 42 \<le> mps" "mps < 2 ^ 63"
  shows "int64 (int64 (int64 (mps - 2) - 16) - 24) = mps - 42"
proof -
  have 1: "int64 (mps - 2) = mps - 2" using assms by (intro int64_id) simp_all
  have 2: "int64 (mps - 2 - 16) = mps - 2 - 16" using assms by (intro int64_id) simp_all
  have 3: "int64 (mps - 2 - 16 - 24) = mps - 2 - 16 - 24" using assms by (intro int64_id) simp_all
  show ?thesis by (simp only: 1 2 3)
qed

lemma New_disabled:
  assumes "NewZeroOverheadHandler lib psk mps False = Ret (Inr h)"
  shows "\<not> enabled h"
  using assms by (auto simp add: NewZeroOverheadHandler_def)

subsection \<open>Encrypt, branch by branch\<close>

lemma Encrypt_data:
  assumes "enabled h" "cb h = Some c" "16 \<le> length P" "\<not> isControlPacket (P ! 0)"
  shows "Encrypt h e P = Ret (Inr (encrypt_block c (take 16 P) @ drop 16 P))"
  using assms
  by (auto simp add: Encrypt_def BlockSize_def len_def go_index_def go_slice_def orPanic_def Let_def)

lemma Encrypt_too_large:
  assumes "enabled h" "cb h = Some c" "16 \<le> length P"
    "isControlPacket (P ! 0)" "int64 (maxControlPacketSize h - len P) < 0 \<or> 65535 < len P - 16"
  shows "Encrypt h e P = Ret (Inl PacketTooLarge)"
  using assms
  by (auto simp add: Encrypt_def BlockSize_def len_def go_index_def go_slice_def orPanic_def Let_def)

lemma paddingLen_of_range:
  "0 \<le> hr \<Longrightarrow> \<exists>pad. paddingLen_of e hr = Some pad \<and> 0 \<le> pad \<and> pad \<le> hr \<and> (0 < hr \<longrightarrow> 1 \<le> pad)"
  apply (auto simp add: paddingLen_of_def rand_Intn_def)
  using pos_mod_bound[of hr "int (intn_draw e)"] by linarith

lemma Encrypt_control:
  assumes "enabled h" "cb h = Some c" "aead h = Some a" "length (encrypt_block c (take 16 P)) = 16" "16 \<le> length P"
    "isControlPacket (P ! 0)" "0 \<le> int64 (maxControlPacketSize h - len P)" "len P - 16 \<le> 65535"
    "paddingLen_of e (int64 (maxControlPacketSize h - len P)) = Some pad" "0 \<le> pad"
    "0 < pad \<longrightarrow> alloc_ok e pad"
  shows "Encrypt h e P = Ret (Inr (encrypt_block c (take 16 P) @
           seal_fn a (rand_Read (nonce_src e) 24)
             (drop 16 P @ rand_Read (padding_src e) pad @ AppendUint16 [] (word_of_int (len P - 16)))
           @ rand_Read (nonce_src e) 24))"
  using assms
  apply (simp add: Encrypt_def BlockSize_def NonceSizeX_def len_def go_index_def go_slice_def orPanic_def Let_def aead_Seal_def AppendUint16_def rand_Read_def make_padding_def)
  apply (auto simp add: of_nat_diff)
  done

lemma Encrypt_no_memory:
  assumes "enabled h" "cb h = Some c" "length (encrypt_block c (take 16 P)) = 16" "16 \<le> length P"
    "isControlPacket (P ! 0)" "0 \<le> int64 (maxControlPacketSize h - len P)" "len P - 16 \<le> 65535"
    "paddingLen_of e (int64 (maxControlPacketSize h - len P)) = Some pad"
    "0 < pad" "\<not> alloc_ok e pad"
  shows "Encrypt h e P = Panics"
  using assms
  by (simp add: Encrypt_def BlockSize_def len_def go_index_def go_slice_def orPanic_def Let_def
      make_padding_def)

lemma Encrypt_control_len:
  assumes lib: "crypto_ok lib"
    and h: "NewZeroOverheadHandler lib psk mps True = Ret (Inr h)"
    and P: "16 \<le> len P"
    and ctl: "isControlPacket (P ! 0)"
    and hr: "0 \<le> int64 (maxControlPacketSize h - len P)" and sz: "len P - 16 \<le> 65535"
  shows "\<exists>pad. paddingLen_of e (int64 (maxControlPacketSize h - len P)) = Some pad \<and>
           0 \<le> pad \<and> pad \<le> int64 (maxControlPacketSize h - len P) \<and>
           (0 < int64 (maxControlPacketSize h - len P) \<longrightarrow> 1 \<le> pad) \<and>
           (0 < pad \<and> \<not> alloc_ok e pad \<longrightarrow> Encrypt h e P = Panics) \<and>
           ((0 < pad \<longrightarrow> alloc_ok e pad) \<longrightarrow>
              (\<exists>C. Encrypt h e P = Ret (Inr C) \<and> len C = len P + pad + 2 + 16 + 24))"
proof -
  from New_enabled[OF lib h] obtain c a where
    en: "enabled h" and c: "cb h = Some c" "block_ok c" and a: "aead h = Some a" "aead_ok a"
    by auto
  have P': "16 \<le> length P" using P by (simp add: len_def)
  let ?A = "encrypt_block c (take 16 P)"
  have lA: "length ?A = 16" using c P' by (simp add: block_ok_def)
  from paddingLen_of_range[OF hr, of e] obtain pad where
    pad: "paddingLen_of e (int64 (maxControlPacketSize h - len P)) = Some pad" "0 \<le> pad"
      "pad \<le> int64 (maxControlPacketSize h - len P)" "0 < int64 (maxControlPacketSize h - len P) \<longrightarrow> 1 \<le> pad"
    by blast
  let ?N = "rand_Read (nonce_src e) 24"
  let ?Pd = "rand_Read (padding_src e) pad"
  let ?w = "word_of_int (len P - 16) :: 16 word"
  let ?X = "seal_fn a ?N (drop 16 P @ ?Pd @ AppendUint16 [] ?w)"
  have E: "Encrypt h e P = Ret (Inr (?A @ ?X @ ?N))" if "0 < pad \<longrightarrow> alloc_ok e pad"
    by (rule Encrypt_control[OF en c(1) a(1) lA P' ctl hr sz pad(1,2) that])
  have N: "Encrypt h e P = Panics" if "0 < pad" "\<not> alloc_ok e pad"
    by (rule Encrypt_no_memory[OF en c(1) lA P' ctl hr sz pad(1) that])
  have lN: "length ?N = 24" by (simp add: rand_Read_def)
  have lX: "length ?X = length P - 16 + nat pad + 2 + 16"
    using a(2) lN by (simp add: aead_ok_def AppendUint16_def rand_Read_def)
  have "len (?A @ ?X @ ?N) = len P + pad + 2 + 16 + 24"
    using lA lN lX P' pad(2) by (simp add: len_def)
  then have S: "\<exists>C. Encrypt h e P = Ret (Inr C) \<and> len C = len P + pad + 2 + 16 + 24"
    if "0 < pad \<longrightarrow> alloc_ok e pad"
    using E[OF that] by blast
  show ?thesis using S N pad by blast
qed

lemma Encrypt_control_head:
  assumes lib: "crypto_ok lib"
    and h: "NewZeroOverheadHandler lib psk mps True = Ret (Inr h)"
    and P: "16 \<le> len P"
    and ctl: "isControlPacket (P ! 0)"
    and E: "Encrypt h e P = Ret (Inr C)"
  shows "58 \<le> len C \<and> take 16 C = encrypt_block (aes_NewCipher lib psk) (take 16 P)"
proof -
  from New_enabled[OF lib h] obtain c a where
    en: "enabled h" and c: "cb h = Some c" "block_ok c" and a: "aead h = Some a" "aead_ok a"
    by auto
  have cc: "c = aes_NewCipher lib psk"
    using h c(1) by (auto simp add: NewZeroOverheadHandler_def split: if_splits)
  have P': "16 \<le> length P" using P by (simp add: len_def)
  let ?A = "encrypt_block c (take 16 P)"
  have lA: "length ?A = 16" using c P' by (simp add: block_ok_def)
  have "\<not> (int64 (maxControlPacketSize h - len P) < 0 \<or> 65535 < len P - 16)"
    using Encrypt_too_large[OF en c(1) P' ctl, of e] E by auto
  then have hr: "0 \<le> int64 (maxControlPacketSize h - len P)" and sz: "len P - 16 \<le> 65535" by auto
  from paddingLen_of_range[OF hr, of e] obtain pad where
    pad: "paddingLen_of e (int64 (maxControlPacketSize h - len P)) = Some pad" "0 \<le> pad" by blast
  have al: "0 < pad \<longrightarrow> alloc_ok e pad"
    using Encrypt_no_memory[OF en c(1) lA P' ctl hr sz pad(1)] E by auto
  let ?N = "rand_Read (nonce_src e) 24"
  let ?X = "seal_fn a ?N (drop 16 P @ rand_Read (padding_src e) pad @ AppendUint16 [] (word_of_int (len P - 16)))"
  have "Encrypt h e P = Ret (Inr (?A @ ?X @ ?N))"
    by (rule Encrypt_control[OF en c(1) a(1) lA P' ctl hr sz pad al])
  then have C: "C = ?A @ ?X @ ?N" using E by simp
  have lN: "length ?N = 24" by (simp add: rand_Read_def)
  have lX: "18 \<le> length ?X" using a(2) lN by (simp add: aead_ok_def AppendUint16_def)
  show ?thesis using C lA lN lX cc by (simp add: len_def)
qed

lemma Encrypt_data_props:
  assumes "enabled h \<longrightarrow> (\<exists>c. cb h = Some c \<and> block_ok c)" "16 \<le> len P" "\<not> isControlPacket (P ! 0)"
  shows "\<exists>C. Encrypt h e P = Ret (Inr C) \<and> len C = len P \<and> drop 16 C = drop 16 P"
proof (cases "enabled h")
  case False
  then show ?thesis by (simp add: Encrypt_def)
next
  case True
  then obtain c where c: "cb h = Some c" "block_ok c" using assms by auto
  have P: "16 \<le> length P" using assms by (simp add: len_def)
  have l: "length (encrypt_block c (take 16 P)) = 16" using c P by (simp add: block_ok_def)
  show ?thesis
    using Encrypt_data[OF True c(1) P assms(3), of e] l P by (simp add: len_def)
qed

subsection \<open>Decrypt, branch by branch\<close>

lemma Decrypt_data:
  assumes "enabled h" "cb h = Some c" "16 \<le> length C" "length (decrypt_block c (take 16 C)) = 16"
     "\<not> isControlPacket (decrypt_block c (take 16 C) ! 0)"
  shows "Decrypt h C = Ret (Inr (decrypt_block c (take 16 C) @ drop 16 C))"
  using assms
  by (auto simp add: Decrypt_def BlockSize_def len_def go_index_def go_slice_def orPanic_def Let_def)

lemma Decrypt_short_control:
  assumes "enabled h" "cb h = Some c" "16 \<le> length C" "length (decrypt_block c (take 16 C)) = 16"
     "isControlPacket (decrypt_block c (take 16 C) ! 0)" "length C < 58"
  shows "Decrypt h C = Ret (Inl InvalidControlPacketLength)"
  using assms
  by (auto simp add: Decrypt_def BlockSize_def Overhead_def NonceSizeX_def len_def go_index_def go_slice_def orPanic_def Let_def)

lemma Decrypt_control:
  assumes en: "enabled h" and cb: "cb h = Some c" and ae: "aead h = Some a"
    and A: "length A = 16" and N: "length N = 24" and X: "18 \<le> length X"
    and B: "length (decrypt_block c A) = 16" and ctl: "isControlPacket (decrypt_block c A ! 0)"
    and op: "open_fn a N X = Some (R @ Pd @ AppendUint16 [] w)"
    and w: "uint w = len R"
  shows "Decrypt h (A @ X @ N) = Ret (Inr (decrypt_block c A @ R))"
proof -
  have u: "(ucast (ucast w :: 8 word) :: 16 word) OR push_bit 8 (ucast (ucast (drop_bit 8 w) :: 8 word)) = w"
    using Uint16_AppendUint16[of w] by (simp add: Uint16_def AppendUint16_def len_def)
  show ?thesis
  using assms
  by (auto simp add: Decrypt_def Let_def BlockSize_def Overhead_def NonceSizeX_def go_slice_def go_index_def
        aead_Open_def orPanic_def len_def Uint16_def AppendUint16_def u nat_add_distrib)
qed

lemma Decrypt_tail_total:
  "\<exists>r. (if len plaintext < 2 then Ret (Inl DecryptedTooSmall)
        else orPanic (go_slice plaintext (len plaintext - 2) (len plaintext)) (\<lambda>lenBytes.
             orPanic (Uint16 lenBytes) (\<lambda>v.
               if 16 + uint v > len plaintext - 2 then Ret (Inl InvalidPayloadLength)
               else orPanic (go_slice plaintext 0 (16 + uint v)) (\<lambda>out. Ret (Inr out))))) = Ret (r :: error + byte list)"
proof (cases "len plaintext < 2")
  case True
  then show ?thesis by simp
next
  case False
  then have s: "go_slice plaintext (len plaintext - 2) (len plaintext) = Some (drop (length plaintext - 2) plaintext)"
    by (simp add: go_slice_def len_def nat_diff_distrib)
  have l2: "len (drop (length plaintext - 2) plaintext) = 2"
    using False by (simp add: len_def)
  then obtain v where v: "Uint16 (drop (length plaintext - 2) plaintext) = Some v"
    by (simp add: Uint16_def)
  have nonneg: "0 \<le> uint v" by simp
  show ?thesis
  proof (cases "16 + uint v > len plaintext - 2")
    case True
    then show ?thesis using False s v by (simp add: orPanic_def)
  next
    case F2: False
    then have "go_slice plaintext 0 (16 + uint v) = Some (take (nat (16 + uint v)) plaintext)"
      using nonneg by (simp add: go_slice_def)
    then show ?thesis using False F2 s v by (simp add: orPanic_def)
  qed
qed

lemma Decrypt_total:
  assumes "enabled h \<longrightarrow> (\<exists>c. cb h = Some c \<and> block_ok c) \<and> aead h \<noteq> None"
  shows "\<exists>r. Decrypt h C = Ret r"
proof (cases "enabled h \<and> 16 \<le> length C")
  case False
  then show ?thesis by (auto simp add: Decrypt_def BlockSize_def len_def)
next
  case True
  then obtain c a where c: "cb h = Some c" "block_ok c" and a: "aead h = Some a"
    using assms by auto
  let ?B = "decrypt_block c (take 16 C)"
  have B: "length ?B = 16"
    using c True by (simp add: block_ok_def)
  show ?thesis
  proof (cases "isControlPacket (?B ! 0)")
    case False
    then show ?thesis using Decrypt_data[of h c C] True c B by simp
  next
    case ctl: True
    show ?thesis
    proof (cases "length C < 58")
      case True
      then show ?thesis using Decrypt_short_control[of h c C] \<open>enabled h \<and> 16 \<le> length C\<close> c B ctl by simp
    next
      case False
      let ?N = "drop (length C - 24) C"
      let ?X = "take (length C - 40) (drop 16 C)"
      have s1: "go_slice C 0 16 = Some (take 16 C)" using False by (simp add: go_slice_def len_def)
      have s2: "go_slice C (len C - 24) (len C) = Some ?N"
        using False by (simp add: go_slice_def len_def nat_diff_distrib)
      have s3: "go_slice C 16 (len C - 24) = Some ?X"
        using False by (simp add: go_slice_def len_def nat_diff_distrib)
      have i1: "go_index ?B 0 = Some (?B ! 0)" using B by (simp add: go_index_def len_def)
      have lN: "len ?N = 24" using False by (simp add: len_def)
      have "\<exists>r. aead_Open a ?B ?N ?X = Some r"
        using lN by (simp add: aead_Open_def NonceSizeX_def)
      then obtain r where o: "aead_Open a ?B ?N ?X = Some r" by blast
      have lB: "len ?B = 16" using B by (simp add: len_def)
      have big: "\<not> len C < 16" "\<not> len C < 16 + 2 + 16 + 24" using False by (simp_all add: len_def)
      have D: "Decrypt h C = (case r of None \<Rightarrow> Ret (Inl AEADOpenFailed)
            | Some plaintext \<Rightarrow> (if len plaintext < 2 then Ret (Inl DecryptedTooSmall)
        else orPanic (go_slice plaintext (len plaintext - 2) (len plaintext)) (\<lambda>lenBytes.
             orPanic (Uint16 lenBytes) (\<lambda>v.
               if 16 + uint v > len plaintext - 2 then Ret (Inl InvalidPayloadLength)
               else orPanic (go_slice plaintext 0 (16 + uint v)) (\<lambda>out. Ret (Inr out))))))"
        unfolding Decrypt_def Let_def BlockSize_def Overhead_def NonceSizeX_def
        using True c a ctl big
        by (simp only: s1 s2 s3 i1 o lB orPanic_Some if_False if_True not_True_eq_False not_False_eq_True simp_thms)
      show ?thesis
        unfolding D using Decrypt_tail_total by (cases r) auto
    qed
  qed
qed

subsection \<open>The claims about the obfuscator\<close>

text \<open>
  C1. For every packet of at least 16 bytes and an enabled handler built from a 32-byte
  PSK, decrypting the encrypted packet gives the packet back. A data packet (first byte
  outside 1..6) always encrypts; for a control packet the statement is about the runs in
  which \<open>Encrypt\<close> returns a result. It holds for every padding draw, padding content and
  nonce, and for every cipher and AEAD that meet the library contract.
\<close>

theorem C1_decrypt_inverts_encrypt:
  assumes lib: "crypto_ok lib"
    and psk: "length psk = 32"
    and h: "NewZeroOverheadHandler lib psk mps True = Ret (Inr h)"
    and P: "16 \<le> len P"
  shows "(P ! 0 \<notin> {1, 2, 3, 4, 5, 6} \<longrightarrow> (\<exists>C. Encrypt h e P = Ret (Inr C))) \<and>
         (\<forall>C. Encrypt h e P = Ret (Inr C) \<longrightarrow> Decrypt h C = Ret (Inr P))"
proof -
  from New_enabled[OF lib h] obtain c a where
    en: "enabled h" and c: "cb h = Some c" "block_ok c" and a: "aead h = Some a" "aead_ok a"
    by auto
  have P': "16 \<le> length P" using P by (simp add: len_def)
  let ?A = "encrypt_block c (take 16 P)"
  have lA: "length ?A = 16" and dA: "decrypt_block c ?A = take 16 P"
    using c P' by (simp_all add: block_ok_def)
  have hd: "take 16 P ! 0 = P ! 0" by simp
  show ?thesis
  proof (cases "isControlPacket (P ! 0)")
    case False
    have E: "Encrypt h e P = Ret (Inr (?A @ drop 16 P))"
      by (rule Encrypt_data[OF en c(1) P' False])
    have "Decrypt h (?A @ drop 16 P) = Ret (Inr (decrypt_block c (take 16 (?A @ drop 16 P)) @ drop 16 (?A @ drop 16 P)))"
      using lA dA P' False by (intro Decrypt_data[OF en c(1)]) simp_all
    then have "Decrypt h (?A @ drop 16 P) = Ret (Inr P)"
      using lA dA by simp
    then show ?thesis using E by simp
  next
    case True
    then have ctl: "P ! 0 \<in> {1, 2, 3, 4, 5, 6}" by (simp add: isControlPacket_iff)
    show ?thesis
    proof (cases "int64 (maxControlPacketSize h - len P) < 0 \<or> 65535 < len P - 16")
      case True
      have "Encrypt h e P = Ret (Inl PacketTooLarge)"
        by (rule Encrypt_too_large[OF en c(1) P' \<open>isControlPacket (P ! 0)\<close> True])
      then show ?thesis using ctl by simp
    next
      case False
      then have hr: "0 \<le> int64 (maxControlPacketSize h - len P)" and sz: "len P - 16 \<le> 65535" by auto
      from paddingLen_of_range[OF hr, of e] obtain pad where
        pad: "paddingLen_of e (int64 (maxControlPacketSize h - len P)) = Some pad" "0 \<le> pad" by blast
      let ?N = "rand_Read (nonce_src e) 24"
      let ?Pd = "rand_Read (padding_src e) pad"
      let ?w = "word_of_int (len P - 16) :: 16 word"
      let ?X = "seal_fn a ?N (drop 16 P @ ?Pd @ AppendUint16 [] ?w)"
      have N: "Encrypt h e P = Panics" if "0 < pad" "\<not> alloc_ok e pad"
        by (rule Encrypt_no_memory[OF en c(1) lA P' True hr sz pad(1) that])
      have E: "Encrypt h e P = Ret (Inr (?A @ ?X @ ?N))" if "0 < pad \<longrightarrow> alloc_ok e pad"
        by (rule Encrypt_control[OF en c(1) a(1) lA P' True hr sz pad that])
      have lN: "length ?N = 24" by (simp add: rand_Read_def)
      have lX: "18 \<le> length ?X" using a(2) lN by (simp add: aead_ok_def AppendUint16_def)
      have op: "open_fn a ?N ?X = Some (drop 16 P @ ?Pd @ AppendUint16 [] ?w)"
        using a(2) lN by (simp add: aead_ok_def)
      have "uint ?w = len P - 16"
        using sz P by (intro uint_len16) simp_all
      moreover have "len (drop 16 P) = len P - 16"
        using P' by (simp add: len_def)
      ultimately have w: "uint ?w = len (drop 16 P)" by simp
      have "Decrypt h (?A @ ?X @ ?N) = Ret (Inr (decrypt_block c ?A @ drop 16 P))"
        using True dA P'
        by (intro Decrypt_control[OF en c(1) a(1) lA lN lX _ _ op w]) simp_all
      then have D: "Decrypt h (?A @ ?X @ ?N) = Ret (Inr P)" using dA by simp
      show ?thesis
      proof (cases "0 < pad \<longrightarrow> alloc_ok e pad")
        case True
        from E[OF True] D ctl show ?thesis by simp
      next
        case False
        then have "Encrypt h e P = Panics" using N by blast
        then show ?thesis using ctl by simp
      qed
    qed
  qed
qed

text \<open>C1 at the 18-byte Ping packet, with the 61 bytes \<open>Encrypt\<close> produces for it.\<close>

theorem C1_witness:
  "NewZeroOverheadHandler toy_crypto toy_psk 1452 True = Ret (Inr (toy_handler 1452)) \<and>
   Encrypt (toy_handler 1452) toy_entropy ping_packet =
     Ret (Inr [166, 164, 167, 166, 161, 160, 163, 162, 173, 172, 175, 174, 169, 168, 171, 170,
               16, 17, 238, 0, 2,
               165, 165, 165, 165, 165, 165, 165, 165, 165, 165, 165, 165, 165, 165, 165, 165,
               0, 1, 2, 3, 4, 5, 6, 7, 8, 9, 10, 11, 12, 13, 14, 15, 16, 17, 18, 19, 20, 21, 22, 23]) \<and>
   Decrypt (toy_handler 1452)
     [166, 164, 167, 166, 161, 160, 163, 162, 173, 172, 175, 174, 169, 168, 171, 170,
      16, 17, 238, 0, 2,
      165, 165, 165, 165, 165, 165, 165, 165, 165, 165, 165, 165, 165, 165, 165, 165,
      0, 1, 2, 3, 4, 5, 6, 7, 8, 9, 10, 11, 12, 13, 14, 15, 16, 17, 18, 19, 20, 21, 22, 23]
     = Ret (Inr ping_packet)"
proof -
  have P: "16 \<le> len ping_packet" by (simp add: ping_packet_def len_def)
  have k: "length toy_psk = 32" by (simp add: toy_psk_def)
  have E: "Encrypt (toy_handler 1452) toy_entropy ping_packet =
     Ret (Inr [166, 164, 167, 166, 161, 160, 163, 162, 173, 172, 175, 174, 169, 168, 171, 170,
               16, 17, 238, 0, 2,
               165, 165, 165, 165, 165, 165, 165, 165, 165, 165, 165, 165, 165, 165, 165, 165,
               0, 1, 2, 3, 4, 5, 6, 7, 8, 9, 10, 11, 12, 13, 14, 15, 16, 17, 18, 19, 20, 21, 22, 23])"
    by code_simp
  from C1_decrypt_inverts_encrypt[OF toy_crypto_ok k New_toy P, of 1452 toy_entropy]
  show ?thesis using E New_toy by simp
qed

text \<open>
  C2. For every data packet (first byte outside 1..6) of at least 16 bytes, \<open>Encrypt\<close>
  returns a result of the same length whose bytes from offset 16 on are those of the
  packet: only the first 16 bytes change. This holds for the enabled and for the disabled
  handler.
\<close>

theorem C2_data_packet_only_first_block_changes:
  assumes lib: "crypto_ok lib"
    and h: "NewZeroOverheadHandler lib psk mps en = Ret (Inr h)"
    and P: "16 \<le> len P"
    and data: "P ! 0 \<notin> {1, 2, 3, 4, 5, 6}"
  shows "\<exists>C. Encrypt h e P = Ret (Inr C) \<and> len C = len P \<and> drop 16 C = drop 16 P"
proof -
  have "enabled h \<longrightarrow> (\<exists>c. cb h = Some c \<and> block_ok c)"
  proof (cases en)
    case True
    then show ?thesis using New_enabled(2)[OF lib, of psk mps h] h by simp
  next
    case False
    then show ?thesis using New_disabled[of lib psk mps h] h by simp
  qed
  then show ?thesis
    using P data by (intro Encrypt_data_props) (simp_all add: isControlPacket_iff)
qed

text \<open>C2 at an 18-byte data packet.\<close>

theorem C2_witness:
  "NewZeroOverheadHandler toy_crypto toy_psk 1452 True = Ret (Inr (toy_handler 1452)) \<and>
   Encrypt (toy_handler 1452) toy_entropy data_packet =
     Ret (Inr [165, 164, 167, 166, 161, 160, 163, 162, 173, 172, 175, 174, 169, 168, 171, 170, 16, 17]) \<and>
   len (encrypt_block (toy_Block toy_psk) (take 16 data_packet) @ drop 16 data_packet) = len data_packet"
proof -
  have P: "16 \<le> len data_packet" by (simp add: data_packet_def len_def)
  have d: "data_packet ! 0 \<notin> {1, 2, 3, 4, 5, 6}" by (simp add: data_packet_def)
  have E: "Encrypt (toy_handler 1452) toy_entropy data_packet =
     Ret (Inr [165, 164, 167, 166, 161, 160, 163, 162, 173, 172, 175, 174, 169, 168, 171, 170, 16, 17])"
    by code_simp
  have E': "Encrypt (toy_handler 1452) toy_entropy data_packet =
     Ret (Inr (encrypt_block (toy_Block toy_psk) (take 16 data_packet) @ drop 16 data_packet))"
    by code_simp
  from C2_data_packet_only_first_block_changes[OF toy_crypto_ok New_toy P d, of 1452 toy_entropy]
  show ?thesis using E E' New_toy by auto
qed

lemma headroom_no_wrap:
  assumes lib: "crypto_ok lib"
    and h: "NewZeroOverheadHandler lib psk mps True = Ret (Inr h)"
    and lo: "- (2 ^ 63) + 42 + len P \<le> mps" and hi: "mps < 2 ^ 63"
  shows "maxControlPacketSize h = mps - 42"
    and "int64 (maxControlPacketSize h - len P) = maxControlPacketSize h - len P"
proof -
  have l0: "0 \<le> len P" by (simp add: len_def)
  have "maxControlPacketSize h = int64 (int64 (int64 (mps - 2) - 16) - 24)"
    by (rule New_enabled(4)[OF lib h])
  also have "\<dots> = mps - 42"
    using lo hi l0 by (intro maxControlPacketSize_no_wrap) simp_all
  finally show m: "maxControlPacketSize h = mps - 42" .
  show "int64 (maxControlPacketSize h - len P) = maxControlPacketSize h - len P"
    unfolding m using lo hi l0 by (intro int64_id) simp_all
qed

text \<open>
  C3, as amended. Take a \<open>maxPacketSize\<close> from which the subtractions of the constructor
  and of \<open>Encrypt\<close> do not wrap around the 64-bit \<open>int\<close>
  (\<open>-2^63 + 42 + len(P) \<le> maxPacketSize < 2^63\<close>). Then for every control packet of at
  least 16 bytes: \<open>Encrypt\<close> fails with \<open>PacketTooLarge\<close> when the packet is longer than
  \<open>maxControlPacketSize\<close>, and also when its remainder after the first block is longer
  than 65535 bytes. Otherwise: a packet that is exactly \<open>maxControlPacketSize\<close> long
  gets no padding and \<open>Encrypt\<close> succeeds; for a shorter packet the padding length is
  from 1 to the headroom, and \<open>Encrypt\<close> succeeds when the padding gets its memory and
  panics when it does not. On success the output is the packet length plus the padding
  plus 2 + 16 + 24 bytes.
\<close>

theorem C3_control_packet_padding:
  assumes lib: "crypto_ok lib"
    and psk: "length psk = 32"
    and h: "NewZeroOverheadHandler lib psk mps True = Ret (Inr h)"
    and lo: "- (2 ^ 63) + 42 + len P \<le> mps" and hi: "mps < 2 ^ 63"
    and P: "16 \<le> len P"
    and ctl: "P ! 0 \<in> {1, 2, 3, 4, 5, 6}"
  shows "(len P > maxControlPacketSize h \<longrightarrow> Encrypt h e P = Ret (Inl PacketTooLarge)) \<and>
         (len P - 16 > 65535 \<longrightarrow> Encrypt h e P = Ret (Inl PacketTooLarge)) \<and>
         (len P \<le> maxControlPacketSize h \<and> len P - 16 \<le> 65535 \<longrightarrow>
            (\<exists>pad. paddingLen_of e (maxControlPacketSize h - len P) = Some pad \<and>
               (len P = maxControlPacketSize h \<longrightarrow>
                  pad = 0 \<and> (\<exists>C. Encrypt h e P = Ret (Inr C) \<and> len C = len P + 2 + 16 + 24)) \<and>
               (len P < maxControlPacketSize h \<longrightarrow>
                  1 \<le> pad \<and> pad \<le> maxControlPacketSize h - len P \<and>
                  (alloc_ok e pad \<longrightarrow>
                     (\<exists>C. Encrypt h e P = Ret (Inr C) \<and> len C = len P + pad + 2 + 16 + 24)) \<and>
                  (\<not> alloc_ok e pad \<longrightarrow> Encrypt h e P = Panics))))"
proof -
  from New_enabled[OF lib h] obtain c where en: "enabled h" and c: "cb h = Some c" by auto
  have P': "16 \<le> length P" using P by (simp add: len_def)
  have ctl': "isControlPacket (P ! 0)" using ctl by (simp add: isControlPacket_iff)
  have w: "int64 (maxControlPacketSize h - len P) = maxControlPacketSize h - len P"
    by (rule headroom_no_wrap(2)[OF lib h lo hi])
  have big: "len P > maxControlPacketSize h \<or> len P - 16 > 65535 \<Longrightarrow> Encrypt h e P = Ret (Inl PacketTooLarge)"
    by (rule Encrypt_too_large[OF en c P' ctl']) (auto simp add: w)
  have ok: "\<exists>pad. paddingLen_of e (maxControlPacketSize h - len P) = Some pad \<and>
               (len P = maxControlPacketSize h \<longrightarrow>
                  pad = 0 \<and> (\<exists>C. Encrypt h e P = Ret (Inr C) \<and> len C = len P + 2 + 16 + 24)) \<and>
               (len P < maxControlPacketSize h \<longrightarrow>
                  1 \<le> pad \<and> pad \<le> maxControlPacketSize h - len P \<and>
                  (alloc_ok e pad \<longrightarrow>
                     (\<exists>C. Encrypt h e P = Ret (Inr C) \<and> len C = len P + pad + 2 + 16 + 24)) \<and>
                  (\<not> alloc_ok e pad \<longrightarrow> Encrypt h e P = Panics))"
    if "len P \<le> maxControlPacketSize h" "len P - 16 \<le> 65535"
  proof -
    from that have hr: "0 \<le> int64 (maxControlPacketSize h - len P)" by (simp add: w)
    from Encrypt_control_len[OF lib h P ctl' hr that(2), of e] obtain pad where
      *: "paddingLen_of e (maxControlPacketSize h - len P) = Some pad"
         "0 \<le> pad" "pad \<le> maxControlPacketSize h - len P"
         "0 < maxControlPacketSize h - len P \<longrightarrow> 1 \<le> pad"
         "0 < pad \<and> \<not> alloc_ok e pad \<longrightarrow> Encrypt h e P = Panics"
         "(0 < pad \<longrightarrow> alloc_ok e pad) \<longrightarrow>
            (\<exists>C. Encrypt h e P = Ret (Inr C) \<and> len C = len P + pad + 2 + 16 + 24)"
      unfolding w by blast
    have z: "pad = 0 \<and> (\<exists>C. Encrypt h e P = Ret (Inr C) \<and> len C = len P + 2 + 16 + 24)"
      if "len P = maxControlPacketSize h"
    proof -
      from that *(2,3) have "pad = 0" by simp
      with *(6) show ?thesis by simp
    qed
    have p: "1 \<le> pad \<and> pad \<le> maxControlPacketSize h - len P \<and>
             (alloc_ok e pad \<longrightarrow>
                (\<exists>C. Encrypt h e P = Ret (Inr C) \<and> len C = len P + pad + 2 + 16 + 24)) \<and>
             (\<not> alloc_ok e pad \<longrightarrow> Encrypt h e P = Panics)"
      if "len P < maxControlPacketSize h"
    proof -
      from that *(4) have "1 \<le> pad" by simp
      then show ?thesis using *(3,5,6) by auto
    qed
    show ?thesis using *(1) z p by blast
  qed
  show ?thesis using big ok by blast
qed

text \<open>C3 at the Ping packet: too large for a 19-byte maximum, padded by one byte for 1452.\<close>

theorem C3_witness:
  "NewZeroOverheadHandler toy_crypto toy_psk 1452 True = Ret (Inr (toy_handler 1452)) \<and>
   len ping_packet < maxControlPacketSize (toy_handler 1452) \<and>
   paddingLen_of toy_entropy (maxControlPacketSize (toy_handler 1452) - len ping_packet) = Some 1 \<and>
   Encrypt (toy_handler 19) toy_entropy ping_packet = Ret (Inl PacketTooLarge)"
proof -
  have P: "16 \<le> len ping_packet" by (simp add: ping_packet_def len_def)
  have k: "length toy_psk = 32" by (simp add: toy_psk_def)
  have c: "ping_packet ! 0 \<in> {1, 2, 3, 4, 5, 6}" by (simp add: ping_packet_def)
  have lo: "- (2 ^ 63) + 42 + len ping_packet \<le> 19" by (simp add: ping_packet_def len_def)
  have hi: "(19 :: int) < 2 ^ 63" by simp
  have l: "len ping_packet < maxControlPacketSize (toy_handler 1452)"
    by (simp add: ping_packet_def len_def toy_handler_def int64_def)
  have m: "len ping_packet > maxControlPacketSize (toy_handler 19)"
    by (simp add: ping_packet_def len_def toy_handler_def int64_def)
  have p: "paddingLen_of toy_entropy (maxControlPacketSize (toy_handler 1452) - len ping_packet) = Some 1"
    by (simp add: paddingLen_of_def rand_Intn_def toy_entropy_def toy_handler_def ping_packet_def
        len_def int64_def)
  from C3_control_packet_padding[OF toy_crypto_ok k New_toy lo hi P c, of toy_entropy] m
  have "Encrypt (toy_handler 19) toy_entropy ping_packet = Ret (Inl PacketTooLarge)" by blast
  then show ?thesis using New_toy l p by simp
qed

text \<open>
  The claim C3 as stated, without the bound on the remainder, fails: with
  \<open>maxPacketSize = 65594\<close> a control packet of exactly \<open>maxControlPacketSize = 65552\<close>
  bytes has a remainder of 65536 bytes and is refused.
\<close>

theorem C3_counterexample:
  "NewZeroOverheadHandler toy_crypto toy_psk 65594 True = Ret (Inr (toy_handler 65594)) \<and>
   (3 # replicate 65551 0) ! 0 = (3 :: byte) \<and>
   len (3 # replicate 65551 0 :: byte list) = maxControlPacketSize (toy_handler 65594) \<and>
   Encrypt (toy_handler 65594) toy_entropy (3 # replicate 65551 0) = Ret (Inl PacketTooLarge)"
proof -
  have E: "Encrypt (toy_handler 65594) toy_entropy (3 # replicate 65551 0) = Ret (Inl PacketTooLarge)"
    by (simp add: Encrypt_def toy_defs go_defs isControlPacket_iff int64_def)
  have l: "len (3 # replicate 65551 0 :: byte list) = maxControlPacketSize (toy_handler 65594)"
    by (simp add: len_def toy_handler_def int64_def)
  show ?thesis using E l New_toy by simp
qed

text \<open>
  Outside that range the headroom wraps around: with \<open>maxPacketSize = -2^63 + 42\<close> the
  limit \<open>maxControlPacketSize\<close> is \<open>-2^63\<close>, the headroom of the 18-byte Ping packet is
  \<open>2^63 - 18\<close>, and the packet is padded and sealed, not refused.
\<close>

lemma Encrypt_wrapped_headroom:
  "maxControlPacketSize (toy_handler (- 9223372036854775766)) = - 9223372036854775808 \<and>
   Encrypt (toy_handler (- 9223372036854775766)) toy_entropy ping_packet =
     Ret (Inr [166, 164, 167, 166, 161, 160, 163, 162, 173, 172, 175, 174, 169, 168, 171, 170,
               16, 17, 238, 0, 2,
               165, 165, 165, 165, 165, 165, 165, 165, 165, 165, 165, 165, 165, 165, 165, 165,
               0, 1, 2, 3, 4, 5, 6, 7, 8, 9, 10, 11, 12, 13, 14, 15, 16, 17, 18, 19, 20, 21, 22, 23])"
  by code_simp

text \<open>
  A padding that is too large for the memory: with \<open>maxPacketSize = 2^62\<close> and a draw of
  \<open>2^50\<close> the padding is \<open>2^50 + 1\<close> bytes, and where no more than \<open>2^48\<close> bytes can be had
  \<open>Encrypt\<close> panics.
\<close>

lemma Encrypt_large_padding:
  "paddingLen_of (toy_entropy\<lparr>intn_draw := 2 ^ 50, alloc_ok := (\<lambda>n. n \<le> 2 ^ 48)\<rparr>)
     (maxControlPacketSize (toy_handler (2 ^ 62)) - len ping_packet) = Some (2 ^ 50 + 1) \<and>
   Encrypt (toy_handler (2 ^ 62)) (toy_entropy\<lparr>intn_draw := 2 ^ 50, alloc_ok := (\<lambda>n. n \<le> 2 ^ 48)\<rparr>)
     ping_packet = Panics"
  by (simp add: Encrypt_def toy_defs go_defs isControlPacket_iff int64_def ping_packet_def Let_def)

text \<open>
  C4, as amended. Take a \<open>maxPacketSize\<close> as in C3
  (\<open>-2^63 + 42 + len(P) \<le> maxPacketSize < 2^63\<close>). For every control packet of at least 16
  bytes on which \<open>Encrypt\<close> succeeds, the output is strictly longer than the packet, at
  least 16 + 2 + 16 + 24 bytes long, and at most \<open>maxControlPacketSize + 2 + 16 + 24\<close>
  bytes long (which is \<open>maxPacketSize\<close>).
\<close>

theorem C4_control_output_length:
  assumes lib: "crypto_ok lib"
    and psk: "length psk = 32"
    and h: "NewZeroOverheadHandler lib psk mps True = Ret (Inr h)"
    and lo: "- (2 ^ 63) + 42 + len P \<le> mps" and hi: "mps < 2 ^ 63"
    and P: "16 \<le> len P"
    and ctl: "P ! 0 \<in> {1, 2, 3, 4, 5, 6}"
    and E: "Encrypt h e P = Ret (Inr C)"
  shows "len C > len P \<and> len C \<ge> 16 + 2 + 16 + 24 \<and>
         len C \<le> maxControlPacketSize h + 2 + 16 + 24 \<and>
         maxControlPacketSize h + 2 + 16 + 24 = maxPacketSize h"
proof -
  from New_enabled[OF lib h] obtain c where en: "enabled h" and c: "cb h = Some c"
    and mp: "maxPacketSize h = mps" by auto
  have P': "16 \<le> length P" using P by (simp add: len_def)
  have ctl': "isControlPacket (P ! 0)" using ctl by (simp add: isControlPacket_iff)
  have m: "maxControlPacketSize h = mps - 42"
    by (rule headroom_no_wrap(1)[OF lib h lo hi])
  have w: "int64 (maxControlPacketSize h - len P) = maxControlPacketSize h - len P"
    by (rule headroom_no_wrap(2)[OF lib h lo hi])
  have "\<not> (int64 (maxControlPacketSize h - len P) < 0 \<or> 65535 < len P - 16)"
    using Encrypt_too_large[OF en c P' ctl', of e] E by auto
  then have hr: "0 \<le> int64 (maxControlPacketSize h - len P)" and sz: "len P - 16 \<le> 65535" by auto
  from Encrypt_control_len[OF lib h P ctl' hr sz, of e] obtain pad where
      *: "0 \<le> pad" "pad \<le> maxControlPacketSize h - len P"
         "0 < pad \<and> \<not> alloc_ok e pad \<longrightarrow> Encrypt h e P = Panics"
         "(0 < pad \<longrightarrow> alloc_ok e pad) \<longrightarrow>
            (\<exists>C. Encrypt h e P = Ret (Inr C) \<and> len C = len P + pad + 2 + 16 + 24)"
      unfolding w by blast
  from *(3) E have "0 < pad \<longrightarrow> alloc_ok e pad" by auto
  with *(4) obtain C' where
    **: "Encrypt h e P = Ret (Inr C')" "len C' = len P + pad + 2 + 16 + 24" by blast
  from **(1) E have "C' = C" by simp
  then show ?thesis using * ** P m mp by auto
qed

text \<open>C4 at the Ping packet.\<close>

theorem C4_witness:
  "NewZeroOverheadHandler toy_crypto toy_psk 1452 True = Ret (Inr (toy_handler 1452)) \<and>
   Encrypt (toy_handler 1452) toy_entropy ping_packet =
     Ret (Inr [166, 164, 167, 166, 161, 160, 163, 162, 173, 172, 175, 174, 169, 168, 171, 170,
               16, 17, 238, 0, 2,
               165, 165, 165, 165, 165, 165, 165, 165, 165, 165, 165, 165, 165, 165, 165, 165,
               0, 1, 2, 3, 4, 5, 6, 7, 8, 9, 10, 11, 12, 13, 14, 15, 16, 17, 18, 19, 20, 21, 22, 23]) \<and>
   len [166, 164, 167, 166, 161, 160, 163, 162, 173, 172, 175, 174, 169, 168, 171, 170,
        16, 17, 238, 0, 2,
        165, 165, 165, 165, 165, 165, 165, 165, 165, 165, 165, 165, 165, 165, 165, 165,
        0, 1, 2, 3, 4, 5, 6, 7, 8, 9, 10, 11, 12, 13, 14, 15, 16, 17, 18, 19, 20, 21, 22, 23 :: byte]
     \<le> maxControlPacketSize (toy_handler 1452) + 2 + 16 + 24"
proof -
  have P: "16 \<le> len ping_packet" by (simp add: ping_packet_def len_def)
  have k: "length toy_psk = 32" by (simp add: toy_psk_def)
  have c: "ping_packet ! 0 \<in> {1, 2, 3, 4, 5, 6}" by (simp add: ping_packet_def)
  have lo: "- (2 ^ 63) + 42 + len ping_packet \<le> 1452" by (simp add: ping_packet_def len_def)
  have hi: "(1452 :: int) < 2 ^ 63" by simp
  have E: "Encrypt (toy_handler 1452) toy_entropy ping_packet =
     Ret (Inr [166, 164, 167, 166, 161, 160, 163, 162, 173, 172, 175, 174, 169, 168, 171, 170,
               16, 17, 238, 0, 2,
               165, 165, 165, 165, 165, 165, 165, 165, 165, 165, 165, 165, 165, 165, 165, 165,
               0, 1, 2, 3, 4, 5, 6, 7, 8, 9, 10, 11, 12, 13, 14, 15, 16, 17, 18, 19, 20, 21, 22, 23])"
    by code_simp
  from C4_control_output_length[OF toy_crypto_ok k New_toy lo hi P c E]
  show ?thesis using E New_toy by simp
qed

text \<open>
  The claim C4 as stated has the upper bound \<open>maxControlPacketSize + 16 + 24\<close>, without
  the two bytes of the length field. A 16-byte control packet under \<open>maxPacketSize = 58\<close>
  (so \<open>maxControlPacketSize = 16\<close>, no padding) encrypts to 58 bytes, above 16 + 40.
\<close>

theorem C4_counterexample:
  "NewZeroOverheadHandler toy_crypto toy_psk 58 True = Ret (Inr (toy_handler 58)) \<and>
   Encrypt (toy_handler 58) toy_entropy [3, 1, 2, 3, 4, 5, 6, 7, 8, 9, 10, 11, 12, 13, 14, 15] =
     Ret (Inr [166, 164, 167, 166, 161, 160, 163, 162, 173, 172, 175, 174, 169, 168, 171, 170,
               0, 0,
               165, 165, 165, 165, 165, 165, 165, 165, 165, 165, 165, 165, 165, 165, 165, 165,
               0, 1, 2, 3, 4, 5, 6, 7, 8, 9, 10, 11, 12, 13, 14, 15, 16, 17, 18, 19, 20, 21, 22, 23]) \<and>
   \<not> len [166, 164, 167, 166, 161, 160, 163, 162, 173, 172, 175, 174, 169, 168, 171, 170,
          0, 0,
          165, 165, 165, 165, 165, 165, 165, 165, 165, 165, 165, 165, 165, 165, 165, 165,
          0, 1, 2, 3, 4, 5, 6, 7, 8, 9, 10, 11, 12, 13, 14, 15, 16, 17, 18, 19, 20, 21, 22, 23 :: byte]
      \<le> maxControlPacketSize (toy_handler 58) + 16 + 24"
proof -
  have E: "Encrypt (toy_handler 58) toy_entropy [3, 1, 2, 3, 4, 5, 6, 7, 8, 9, 10, 11, 12, 13, 14, 15] =
     Ret (Inr [166, 164, 167, 166, 161, 160, 163, 162, 173, 172, 175, 174, 169, 168, 171, 170,
               0, 0,
               165, 165, 165, 165, 165, 165, 165, 165, 165, 165, 165, 165, 165, 165, 165, 165,
               0, 1, 2, 3, 4, 5, 6, 7, 8, 9, 10, 11, 12, 13, 14, 15, 16, 17, 18, 19, 20, 21, 22, 23])"
    by code_simp
  show ?thesis using E New_toy by (simp add: len_def toy_handler_def int64_def)
qed

lemma Decrypt_open_refused:
  assumes en: "enabled h" and c: "cb h = Some c" "block_ok c" and a: "aead h = Some a"
    and big: "58 \<le> length C"
    and ctl: "isControlPacket (decrypt_block c (take 16 C) ! 0)"
    and refused: "open_fn a (drop (length C - 24) C) (take (length C - 40) (drop 16 C)) = None"
  shows "Decrypt h C = Ret (Inl AEADOpenFailed)"
proof -
  let ?B = "decrypt_block c (take 16 C)"
  let ?N = "drop (length C - 24) C"
  let ?X = "take (length C - 40) (drop 16 C)"
  have B: "length ?B = 16" using c big by (simp add: block_ok_def)
  have s1: "go_slice C 0 16 = Some (take 16 C)" using big by (simp add: go_slice_def len_def)
  have s2: "go_slice C (len C - 24) (len C) = Some ?N"
    using big by (simp add: go_slice_def len_def nat_diff_distrib)
  have s3: "go_slice C 16 (len C - 24) = Some ?X"
    using big by (simp add: go_slice_def len_def nat_diff_distrib)
  have i1: "go_index ?B 0 = Some (?B ! 0)" using B by (simp add: go_index_def len_def)
  have o: "aead_Open a ?B ?N ?X = Some None"
    using big refused by (simp add: aead_Open_def NonceSizeX_def Overhead_def len_def)
  have lB: "len ?B = 16" using B by (simp add: len_def)
  have g: "\<not> len C < 16" "\<not> len C < 16 + 2 + 16 + 24" using big by (simp_all add: len_def)
  show ?thesis
    unfolding Decrypt_def Let_def BlockSize_def Overhead_def NonceSizeX_def
    using en c(1) a ctl g
    by (simp only: s1 s2 s3 i1 o lB orPanic_Some if_False if_True not_True_eq_False
          not_False_eq_True simp_thms option.case)
qed

text \<open>
  C5. For every packet of at least 16 bytes whose first block decrypts to a control kind
  and whose length is below 16 + 2 + 16 + 24, \<open>Decrypt\<close> returns the error
  \<open>InvalidControlPacketLength\<close>. \<open>Decrypt\<close> returns on every input: it never panics. A
  control packet of 58 bytes or more that the AEAD refuses to open gets the error of
  \<open>Open\<close>. In particular an encrypted control packet cut by its last nonce byte is
  refused with an error: by the length test when fewer than 58 bytes are left, and else
  by \<open>Open\<close>, which is handed a nonce and a ciphertext shifted by one byte; that it
  refuses them is the authentication the library provides, and is the hypothesis of that
  part. The same holds for a packet cut down to any length from 16 to 57.
\<close>

theorem C5_short_control_packet_rejected:
  assumes lib: "crypto_ok lib"
    and psk: "length psk = 32"
    and h: "NewZeroOverheadHandler lib psk mps True = Ret (Inr h)"
  shows "(16 \<le> len C \<and> len C < 16 + 2 + 16 + 24 \<and>
            decrypt_block (aes_NewCipher lib psk) (take 16 C) ! 0 \<in> {1, 2, 3, 4, 5, 6} \<longrightarrow>
            Decrypt h C = Ret (Inl InvalidControlPacketLength)) \<and>
         (\<exists>r. Decrypt h C = Ret r) \<and>
         (16 \<le> len P \<and> P ! 0 \<in> {1, 2, 3, 4, 5, 6} \<and> Encrypt h e P = Ret (Inr C') \<and>
            16 \<le> n \<and> n < 16 + 2 + 16 + 24 \<longrightarrow>
            Decrypt h (take n C') = Ret (Inl InvalidControlPacketLength)) \<and>
         (16 + 2 + 16 + 24 \<le> len C \<and>
            decrypt_block (aes_NewCipher lib psk) (take 16 C) ! 0 \<in> {1, 2, 3, 4, 5, 6} \<and>
            open_fn (chacha20poly1305_NewX lib psk) (drop (length C - 24) C)
              (take (length C - 40) (drop 16 C)) = None \<longrightarrow>
            Decrypt h C = Ret (Inl AEADOpenFailed)) \<and>
         (16 \<le> len P \<and> P ! 0 \<in> {1, 2, 3, 4, 5, 6} \<and> Encrypt h e P = Ret (Inr C') \<longrightarrow>
            (len (butlast C') < 16 + 2 + 16 + 24 \<longrightarrow>
               Decrypt h (butlast C') = Ret (Inl InvalidControlPacketLength)) \<and>
            (16 + 2 + 16 + 24 \<le> len (butlast C') \<and>
             open_fn (chacha20poly1305_NewX lib psk) (drop (length (butlast C') - 24) (butlast C'))
               (take (length (butlast C') - 40) (drop 16 (butlast C'))) = None \<longrightarrow>
               Decrypt h (butlast C') = Ret (Inl AEADOpenFailed)))"
proof -
  from New_enabled[OF lib h] obtain c a where
    en: "enabled h" and c: "cb h = Some c" "block_ok c" and a: "aead h = Some a"
    by auto
  have cc: "c = aes_NewCipher lib psk"
    using h c(1) by (auto simp add: NewZeroOverheadHandler_def split: if_splits)
  have aa: "a = chacha20poly1305_NewX lib psk"
    using h a by (auto simp add: NewZeroOverheadHandler_def split: if_splits)
  have short: "Decrypt h D = Ret (Inl InvalidControlPacketLength)"
    if "16 \<le> length D" "length D < 58" "isControlPacket (decrypt_block c (take 16 D) ! 0)" for D
    using that c by (intro Decrypt_short_control[OF en c(1)]) (simp_all add: block_ok_def)
  have refused: "Decrypt h D = Ret (Inl AEADOpenFailed)"
    if "58 \<le> length D" "isControlPacket (decrypt_block c (take 16 D) ! 0)"
       "open_fn a (drop (length D - 24) D) (take (length D - 40) (drop 16 D)) = None" for D
    using that by (intro Decrypt_open_refused[OF en c a])
  have 1: "16 \<le> len C \<and> len C < 16 + 2 + 16 + 24 \<and>
            decrypt_block (aes_NewCipher lib psk) (take 16 C) ! 0 \<in> {1, 2, 3, 4, 5, 6} \<longrightarrow>
            Decrypt h C = Ret (Inl InvalidControlPacketLength)"
    using short[of C] cc by (simp add: len_def isControlPacket_iff)
  have 2: "\<exists>r. Decrypt h C = Ret r"
    using c a by (intro Decrypt_total) simp
  have head: "58 \<le> length C' \<and> decrypt_block c (take 16 C') = take 16 P \<and> isControlPacket (P ! 0)"
    if "16 \<le> len P" "P ! 0 \<in> {1, 2, 3, 4, 5, 6}" "Encrypt h e P = Ret (Inr C')"
  proof -
    have ctl: "isControlPacket (P ! 0)" using that(2) by (simp add: isControlPacket_iff)
    from Encrypt_control_head[OF lib h that(1) ctl that(3)]
    have hd: "58 \<le> len C'" "take 16 C' = encrypt_block c (take 16 P)" using cc by simp_all
    have P': "16 \<le> length P" using that(1) by (simp add: len_def)
    have "decrypt_block c (take 16 C') = take 16 P"
      using hd(2) c(2) P' by (simp add: block_ok_def)
    then show ?thesis using hd(1) ctl by (simp add: len_def)
  qed
  have 3: "Decrypt h (take n C') = Ret (Inl InvalidControlPacketLength)"
    if "16 \<le> len P" "P ! 0 \<in> {1, 2, 3, 4, 5, 6}" "Encrypt h e P = Ret (Inr C')"
       "16 \<le> n" "n < 16 + 2 + 16 + 24"
  proof -
    from head[OF that(1,2,3)] have hd: "58 \<le> length C'" "decrypt_block c (take 16 C') = take 16 P"
      "isControlPacket (P ! 0)" by simp_all
    have t: "take 16 (take n C') = take 16 C'" using that(4) by (simp add: min_def)
    show ?thesis
      using that(4,5) hd t by (intro short) simp_all
  qed
  have 4: "16 + 2 + 16 + 24 \<le> len C \<and>
            decrypt_block (aes_NewCipher lib psk) (take 16 C) ! 0 \<in> {1, 2, 3, 4, 5, 6} \<and>
            open_fn (chacha20poly1305_NewX lib psk) (drop (length C - 24) C)
              (take (length C - 40) (drop 16 C)) = None \<longrightarrow>
            Decrypt h C = Ret (Inl AEADOpenFailed)"
    using refused[of C] cc aa by (simp add: len_def isControlPacket_iff)
  have 5: "(len (butlast C') < 16 + 2 + 16 + 24 \<longrightarrow>
               Decrypt h (butlast C') = Ret (Inl InvalidControlPacketLength)) \<and>
            (16 + 2 + 16 + 24 \<le> len (butlast C') \<and>
             open_fn (chacha20poly1305_NewX lib psk) (drop (length (butlast C') - 24) (butlast C'))
               (take (length (butlast C') - 40) (drop 16 (butlast C'))) = None \<longrightarrow>
               Decrypt h (butlast C') = Ret (Inl AEADOpenFailed))"
    if "16 \<le> len P" "P ! 0 \<in> {1, 2, 3, 4, 5, 6}" "Encrypt h e P = Ret (Inr C')"
  proof -
    from head[OF that] have hd: "58 \<le> length C'" "decrypt_block c (take 16 C') = take 16 P"
      "isControlPacket (P ! 0)" by simp_all
    have b: "butlast C' = take (length C' - 1) C'" by (rule butlast_conv_take)
    have "min 16 (length C' - 1) = 16" using hd(1) by simp
    then have t: "take 16 (butlast C') = take 16 C'" unfolding b by (simp del: One_nat_def)
    have l: "16 \<le> length (butlast C')" using hd(1) by simp
    have ctl: "isControlPacket (decrypt_block c (take 16 (butlast C')) ! 0)"
      using t hd(2,3) by simp
    have A: "len (butlast C') < 16 + 2 + 16 + 24 \<longrightarrow>
               Decrypt h (butlast C') = Ret (Inl InvalidControlPacketLength)"
      using short[OF l _ ctl] by (simp add: len_def)
    have B: "16 + 2 + 16 + 24 \<le> len (butlast C') \<and>
             open_fn (chacha20poly1305_NewX lib psk) (drop (length (butlast C') - 24) (butlast C'))
               (take (length (butlast C') - 40) (drop 16 (butlast C'))) = None \<longrightarrow>
               Decrypt h (butlast C') = Ret (Inl AEADOpenFailed)"
      using refused[of "butlast C'", OF _ ctl] aa by (simp add: len_def)
    show ?thesis using A B by blast
  qed
  show ?thesis using 1 2 3 4 5 by blast
qed

text \<open>
  C5 at the 61-byte encryption of the Ping packet, cut by its last nonce byte: 60 bytes
  are left and \<open>Open\<close> refuses them. And at the 58-byte encryption of a 16-byte Ping
  packet: cut by its last byte it fails the length test.
\<close>

theorem C5_witness:
  "Encrypt (toy_handler 1452) toy_entropy ping_packet =
     Ret (Inr [166, 164, 167, 166, 161, 160, 163, 162, 173, 172, 175, 174, 169, 168, 171, 170,
               16, 17, 238, 0, 2,
               165, 165, 165, 165, 165, 165, 165, 165, 165, 165, 165, 165, 165, 165, 165, 165,
               0, 1, 2, 3, 4, 5, 6, 7, 8, 9, 10, 11, 12, 13, 14, 15, 16, 17, 18, 19, 20, 21, 22, 23]) \<and>
   Decrypt (toy_handler 1452)
     (butlast [166, 164, 167, 166, 161, 160, 163, 162, 173, 172, 175, 174, 169, 168, 171, 170,
               16, 17, 238, 0, 2,
               165, 165, 165, 165, 165, 165, 165, 165, 165, 165, 165, 165, 165, 165, 165, 165,
               0, 1, 2, 3, 4, 5, 6, 7, 8, 9, 10, 11, 12, 13, 14, 15, 16, 17, 18, 19, 20, 21, 22, 23])
     = Ret (Inl AEADOpenFailed) \<and>
   Encrypt (toy_handler 58) toy_entropy (take 16 ping_packet) =
     Ret (Inr [166, 164, 167, 166, 161, 160, 163, 162, 173, 172, 175, 174, 169, 168, 171, 170,
               0, 0,
               165, 165, 165, 165, 165, 165, 165, 165, 165, 165, 165, 165, 165, 165, 165, 165,
               0, 1, 2, 3, 4, 5, 6, 7, 8, 9, 10, 11, 12, 13, 14, 15, 16, 17, 18, 19, 20, 21, 22, 23]) \<and>
   Decrypt (toy_handler 58)
     (butlast [166, 164, 167, 166, 161, 160, 163, 162, 173, 172, 175, 174, 169, 168, 171, 170,
               0, 0,
               165, 165, 165, 165, 165, 165, 165, 165, 165, 165, 165, 165, 165, 165, 165, 165,
               0, 1, 2, 3, 4, 5, 6, 7, 8, 9, 10, 11, 12, 13, 14, 15, 16, 17, 18, 19, 20, 21, 22, 23])
     = Ret (Inl InvalidControlPacketLength)"
proof -
  let ?C = "[166, 164, 167, 166, 161, 160, 163, 162, 173, 172, 175, 174, 169, 168, 171, 170,
               0, 0,
               165, 165, 165, 165, 165, 165, 165, 165, 165, 165, 165, 165, 165, 165, 165, 165,
               0, 1, 2, 3, 4, 5, 6, 7, 8, 9, 10, 11, 12, 13, 14, 15, 16, 17, 18, 19, 20, 21, 22, 23] :: byte list"
  let ?D = "[166, 164, 167, 166, 161, 160, 163, 162, 173, 172, 175, 174, 169, 168, 171, 170,
               16, 17, 238, 0, 2,
               165, 165, 165, 165, 165, 165, 165, 165, 165, 165, 165, 165, 165, 165, 165, 165,
               0, 1, 2, 3, 4, 5, 6, 7, 8, 9, 10, 11, 12, 13, 14, 15, 16, 17, 18, 19, 20, 21, 22, 23] :: byte list"
  have k: "length toy_psk = 32" by (simp add: toy_psk_def)
  have P: "16 \<le> len (take 16 ping_packet)" by (simp add: ping_packet_def len_def)
  have c: "take 16 ping_packet ! 0 \<in> {1, 2, 3, 4, 5, 6}" by (simp add: ping_packet_def)
  have E: "Encrypt (toy_handler 58) toy_entropy (take 16 ping_packet) = Ret (Inr ?C)"
    by code_simp
  have sh: "len (butlast ?C) < 16 + 2 + 16 + 24" by (simp add: len_def)
  note T = C5_short_control_packet_rejected[OF toy_crypto_ok k New_toy,
      where P = "take 16 ping_packet" and e = toy_entropy and C' = ?C and mps = 58]
  note T5 = T[THEN conjunct2, THEN conjunct2, THEN conjunct2, THEN conjunct2]
  have "16 \<le> len (take 16 ping_packet) \<and> take 16 ping_packet ! 0 \<in> {1, 2, 3, 4, 5, 6} \<and>
        Encrypt (toy_handler 58) toy_entropy (take 16 ping_packet) = Ret (Inr ?C)"
    using P c E by blast
  from T5[rule_format, OF this, THEN conjunct1, rule_format, OF sh]
  have 1: "Decrypt (toy_handler 58) (butlast ?C) = Ret (Inl InvalidControlPacketLength)" .
  have P': "16 \<le> len ping_packet" by (simp add: ping_packet_def len_def)
  have c': "ping_packet ! 0 \<in> {1, 2, 3, 4, 5, 6}" by (simp add: ping_packet_def)
  have E': "Encrypt (toy_handler 1452) toy_entropy ping_packet = Ret (Inr ?D)"
    by code_simp
  have lg: "16 + 2 + 16 + 24 \<le> len (butlast ?D)" by (simp add: len_def)
  have rf: "open_fn (chacha20poly1305_NewX toy_crypto toy_psk) (drop (length (butlast ?D) - 24) (butlast ?D))
               (take (length (butlast ?D) - 40) (drop 16 (butlast ?D))) = None"
    by (simp add: toy_crypto_def toy_AEAD_def toy_psk_def)
  note U = C5_short_control_packet_rejected[OF toy_crypto_ok k New_toy,
      where P = ping_packet and e = toy_entropy and C' = ?D and mps = 1452]
  note U5 = U[THEN conjunct2, THEN conjunct2, THEN conjunct2, THEN conjunct2]
  have "16 \<le> len ping_packet \<and> ping_packet ! 0 \<in> {1, 2, 3, 4, 5, 6} \<and>
        Encrypt (toy_handler 1452) toy_entropy ping_packet = Ret (Inr ?D)"
    using P' c' E' by blast
  from U5[rule_format, OF this, THEN conjunct2, rule_format, OF conjI[OF lg rf]]
  have 2: "Decrypt (toy_handler 1452) (butlast ?D) = Ret (Inl AEADOpenFailed)" .
  show ?thesis using E E' 1 2 by blast
qed

section \<open>Properties of the packet codec\<close>

lemma sliceUint16_in:
  "0 \<le> lo \<Longrightarrow> lo + 2 \<le> len b \<Longrightarrow> \<exists>v. sliceUint16 b lo (lo + 2) = Some v"
  by (simp add: sliceUint16_def go_slice_def Uint16_def len_def)

lemma sliceUint32_in:
  "0 \<le> lo \<Longrightarrow> lo + 4 \<le> len b \<Longrightarrow> \<exists>v. sliceUint32 b lo (lo + 4) = Some v"
  by (simp add: sliceUint32_def go_slice_def Uint32_def len_def)

lemma go_slice_tail: "int k < len t \<Longrightarrow> go_slice t (int k) (len t) = Some (drop k t)"
  by (simp add: go_slice_def len_def)

lemma int_less_len_diff:
  "n \<le> length b \<Longrightarrow> m = int n \<Longrightarrow> (int k < len b - m) = (k < length b - n)"
  by (auto simp add: len_def)

lemma parseTCPSegment_Some:
  assumes st: "0 \<le> tcpStart" and proto: "proto = 6" and l: "tcpStart + 20 \<le> len buf"
  shows "\<exists>p. parseTCPSegment buf pkt proto tcpStart = Ret (Some p) \<and>
           Payload p =
             (if uint (drop_bit 4 (buf ! (nat tcpStart + 12)) * 4) < len buf - tcpStart
              then drop (nat tcpStart + unat (drop_bit 4 (buf ! (nat tcpStart + 12)) * 4)) buf
              else Payload pkt)"
proof -
  let ?t = "drop (nat tcpStart) buf"
  have t: "go_slice buf tcpStart (len buf) = Some ?t"
    using st l by (simp add: go_slice_def len_def)
  have lt: "len ?t = len buf - tcpStart" "20 \<le> len ?t"
    using st l by (simp_all add: len_def)
  from sliceUint16_in[of 0 ?t] lt obtain srcPort where a: "sliceUint16 ?t 0 2 = Some srcPort" by auto
  from sliceUint16_in[of 2 ?t] lt obtain dstPort where b: "sliceUint16 ?t 2 4 = Some dstPort" by auto
  from sliceUint32_in[of 4 ?t] lt obtain sq where c: "sliceUint32 ?t 4 8 = Some sq" by auto
  from sliceUint32_in[of 8 ?t] lt obtain ak where d: "sliceUint32 ?t 8 12 = Some ak" by auto
  from sliceUint16_in[of 14 ?t] lt obtain win where e: "sliceUint16 ?t 14 16 = Some win" by auto
  have i12: "go_index ?t 12 = Some (buf ! (nat tcpStart + 12))"
    using lt st l by (simp add: go_index_def len_def)
  have i13: "go_index ?t 13 = Some (buf ! (nat tcpStart + 13))"
    using lt st l by (simp add: go_index_def len_def)
  let ?off = "drop_bit 4 (buf ! (nat tcpStart + 12)) * 4"
  have pl: "uint ?off < len ?t \<Longrightarrow>
      go_slice ?t (uint ?off) (len ?t) = Some (drop (nat tcpStart + unat ?off) buf)"
  proof -
    assume "uint ?off < len ?t"
    then have "go_slice ?t (uint ?off) (len ?t) = Some (drop (unat ?off) ?t)"
      unfolding uint_nat by (rule go_slice_tail)
    then show ?thesis by (simp add: add.commute)
  qed
  show ?thesis
  proof (cases "uint ?off < len ?t")
    case True
    then show ?thesis
      using proto l t a b c d e i12 i13 pl lt(1)
      by (simp add: parseTCPSegment_def TCPHeaderLen_def orPanic_def Let_def)
  next
    case False
    then show ?thesis
      using proto l t a b c d e i12 i13 lt(1)
      by (simp add: parseTCPSegment_def TCPHeaderLen_def orPanic_def Let_def)
  qed
qed

lemma parseTCPSegment_None:
  "proto \<noteq> 6 \<or> len buf < tcpStart + 20 \<Longrightarrow> parseTCPSegment buf pkt proto tcpStart = Ret None"
  by (auto simp add: parseTCPSegment_def TCPHeaderLen_def)

lemma ParseTCPPacket_cases:
  "(not_a_tcp_packet buf \<and> ParseTCPPacket buf = Ret None) \<or>
   (\<not> not_a_tcp_packet buf \<and>
    (\<exists>p. ParseTCPPacket buf = Ret (Some p) \<and>
       Payload p =
         (if tcp_data_offset buf < length buf - ip_header_len buf
          then drop (ip_header_len buf + tcp_data_offset buf) buf else [])))"
proof (cases "length buf < 20")
  case True
  then show ?thesis by (simp add: not_a_tcp_packet_def ParseTCPPacket_def IPv4HeaderLen_def len_def)
next
  case False
  then have i0: "go_index buf 0 = Some (buf ! 0)" by (auto simp add: go_index_def len_def)
  consider (v4) "ip_version buf = 4" | (v6) "ip_version buf = 6"
    | (other) "ip_version buf \<noteq> 4" "ip_version buf \<noteq> 6" by blast
  then show ?thesis
  proof cases
    case v4
    have s: "go_slice buf 12 16 = Some (take 4 (drop 12 buf))" "go_slice buf 16 20 = Some (take 4 (drop 16 buf))"
      "go_index buf 9 = Some (buf ! 9)"
      using False by (simp_all add: go_slice_def go_index_def len_def)
    let ?pkt = "zero_TCPPacket\<lparr>IsIPv6 := False, SrcIP := take 4 (drop 12 buf), DstIP := take 4 (drop 16 buf)\<rparr>"
    have P: "ParseTCPPacket buf = parseTCPSegment buf ?pkt (buf ! 9) 20"
      using False v4 i0 s
      by (simp add: ParseTCPPacket_def IPv4HeaderLen_def len_def orPanic_def ip_version_def)
    show ?thesis
    proof (cases "buf ! 9 \<noteq> 6 \<or> len buf < 20 + 20")
      case True
      then have "not_a_tcp_packet buf"
        using v4 by (auto simp add: not_a_tcp_packet_def ip_protocol_def ip_header_len_def len_def)
      then show ?thesis using P parseTCPSegment_None[OF True] by simp
    next
      case F: False
      then have n: "\<not> not_a_tcp_packet buf"
        using v4 False by (auto simp add: not_a_tcp_packet_def ip_protocol_def ip_header_len_def len_def)
      from F parseTCPSegment_Some[of 20 "buf ! 9" buf ?pkt]
      obtain p where p: "parseTCPSegment buf ?pkt (buf ! 9) 20 = Ret (Some p)"
        "Payload p = (if uint (drop_bit 4 (buf ! (nat 20 + 12)) * 4) < len buf - 20
              then drop (nat 20 + unat (drop_bit 4 (buf ! (nat 20 + 12)) * 4)) buf
              else Payload ?pkt)" by auto
      have "Payload p = (if tcp_data_offset buf < length buf - ip_header_len buf
          then drop (ip_header_len buf + tcp_data_offset buf) buf else [])"
      proof -
        have "20 \<le> length buf" using False by simp
        then have "(uint (drop_bit 4 (buf ! 32) * 4) < len buf - 20) =
              (unat (drop_bit 4 (buf ! 32) * 4) < length buf - 20)"
          unfolding uint_nat by (rule int_less_len_diff) simp
        then show ?thesis
          using p(2) v4 by (simp add: tcp_data_offset_def ip_header_len_def zero_TCPPacket_def)
      qed
      then show ?thesis using n P p(1) by simp
    qed
  next
    case v6
    show ?thesis
    proof (cases "length buf < 40")
      case True
      then have "not_a_tcp_packet buf" using v6 by (simp add: not_a_tcp_packet_def ip_header_len_def)
      then show ?thesis using True v6 False i0
        by (simp add: ParseTCPPacket_def IPv4HeaderLen_def IPv6HeaderLen_def len_def orPanic_def ip_version_def)
    next
      case L: False
      have s: "go_slice buf 8 24 = Some (take 16 (drop 8 buf))" "go_slice buf 24 40 = Some (take 16 (drop 24 buf))"
        "go_index buf 6 = Some (buf ! 6)"
        using L by (simp_all add: go_slice_def go_index_def len_def)
      let ?pkt = "zero_TCPPacket\<lparr>IsIPv6 := True, SrcIP := take 16 (drop 8 buf), DstIP := take 16 (drop 24 buf)\<rparr>"
      have P: "ParseTCPPacket buf = parseTCPSegment buf ?pkt (buf ! 6) 40"
        using False L v6 i0 s
        by (simp add: ParseTCPPacket_def IPv4HeaderLen_def IPv6HeaderLen_def len_def orPanic_def ip_version_def)
      show ?thesis
      proof (cases "buf ! 6 \<noteq> 6 \<or> len buf < 40 + 20")
        case True
        then have "not_a_tcp_packet buf"
          using v6 by (auto simp add: not_a_tcp_packet_def ip_protocol_def ip_header_len_def len_def)
        then show ?thesis using P parseTCPSegment_None[OF True] by simp
      next
        case F: False
        then have n: "\<not> not_a_tcp_packet buf"
          using v6 L by (auto simp add: not_a_tcp_packet_def ip_protocol_def ip_header_len_def len_def)
        from F parseTCPSegment_Some[of 40 "buf ! 6" buf ?pkt]
        obtain p where p: "parseTCPSegment buf ?pkt (buf ! 6) 40 = Ret (Some p)"
          "Payload p = (if uint (drop_bit 4 (buf ! (nat 40 + 12)) * 4) < len buf - 40
                then drop (nat 40 + unat (drop_bit 4 (buf ! (nat 40 + 12)) * 4)) buf
                else Payload ?pkt)" by auto
        have "Payload p = (if tcp_data_offset buf < length buf - ip_header_len buf
            then drop (ip_header_len buf + tcp_data_offset buf) buf else [])"
        proof -
          have "40 \<le> length buf" using L by simp
          then have "(uint (drop_bit 4 (buf ! 52) * 4) < len buf - 40) =
                (unat (drop_bit 4 (buf ! 52) * 4) < length buf - 40)"
            unfolding uint_nat by (rule int_less_len_diff) simp
          then show ?thesis
            using p(2) v6 by (simp add: tcp_data_offset_def ip_header_len_def zero_TCPPacket_def)
        qed
        then show ?thesis using n P p(1) by simp
      qed
    qed
  next
    case other
    then have "not_a_tcp_packet buf" by (simp add: not_a_tcp_packet_def)
    then show ?thesis using other False i0
      by (simp add: ParseTCPPacket_def IPv4HeaderLen_def len_def orPanic_def ip_version_def)
  qed
qed

lemma ParseTCPPacket_Ret: "\<exists>r. ParseTCPPacket buf = Ret r"
  using ParseTCPPacket_cases[of buf] by auto

text \<open>
  C9. \<open>ParseTCPPacket\<close> returns on every buffer: it never panics. It returns nil exactly
  when the buffer is shorter than 20 bytes, the IP version is neither 4 nor 6, the buffer
  is shorter than the IP header of its version, the protocol field is not 6, or the
  buffer is shorter than the IP header plus the 20-byte TCP header; otherwise it returns
  a packet. When the data offset points at or past the end of the segment the payload
  of that packet is empty; otherwise the payload is the rest of the buffer from the data
  offset on.
\<close>

theorem C9_ParseTCPPacket_total:
  "(\<exists>r. ParseTCPPacket buf = Ret r) \<and>
   (ParseTCPPacket buf = Ret None \<longleftrightarrow> not_a_tcp_packet buf) \<and>
   (\<not> not_a_tcp_packet buf \<and> length buf - ip_header_len buf \<le> tcp_data_offset buf \<longrightarrow>
      (\<exists>p. ParseTCPPacket buf = Ret (Some p) \<and> Payload p = [])) \<and>
   (\<not> not_a_tcp_packet buf \<and> tcp_data_offset buf < length buf - ip_header_len buf \<longrightarrow>
      (\<exists>p. ParseTCPPacket buf = Ret (Some p) \<and>
           Payload p = drop (ip_header_len buf + tcp_data_offset buf) buf))"
  using ParseTCPPacket_cases[of buf] by auto

text \<open>C9 at a SYN|ACK packet without payload, with three bytes of payload, and cut short.\<close>

theorem C9_witness:
  "ParseTCPPacket syn_ack_packet =
     Ret (Some \<lparr>SrcIP = [10, 0, 0, 2], DstIP = [10, 0, 0, 1], SrcPort = 443, DstPort = 3001,
                Seq = 7, Ack = 4294967295, Flags = 18, Window = 65535, Payload = [],
                IsIPv6 = False\<rparr>) \<and>
   (\<exists>p. ParseTCPPacket (syn_ack_packet @ [1, 2, 3]) = Ret (Some p) \<and> Payload p = [1, 2, 3]) \<and>
   ParseTCPPacket (take 39 syn_ack_packet) = Ret None"
proof -
  have v: "ip_version syn_ack_packet = 4" "ip_version (syn_ack_packet @ [1, 2, 3]) = 4"
    "ip_version (take 39 syn_ack_packet) = 4"
    by (simp_all add: ip_version_def syn_ack_packet_def drop_bit_eq_div)
  have n: "\<not> not_a_tcp_packet syn_ack_packet" "\<not> not_a_tcp_packet (syn_ack_packet @ [1, 2, 3])"
    "not_a_tcp_packet (take 39 syn_ack_packet)"
    using v by (simp_all add: not_a_tcp_packet_def ip_header_len_def ip_protocol_def)
               (simp_all add: syn_ack_packet_def)
  have o: "tcp_data_offset syn_ack_packet = 20" "tcp_data_offset (syn_ack_packet @ [1, 2, 3]) = 20"
    using v by (simp_all add: tcp_data_offset_def ip_header_len_def)
               (simp_all add: syn_ack_packet_def drop_bit_eq_div)
  have l: "length syn_ack_packet - ip_header_len syn_ack_packet \<le> tcp_data_offset syn_ack_packet"
    using v o by (simp add: ip_header_len_def) (simp add: syn_ack_packet_def)
  have l': "tcp_data_offset (syn_ack_packet @ [1, 2, 3])
            < length (syn_ack_packet @ [1, 2, 3]) - ip_header_len (syn_ack_packet @ [1, 2, 3])"
    using v o by (simp add: ip_header_len_def) (simp add: syn_ack_packet_def)
  have d: "drop (ip_header_len (syn_ack_packet @ [1, 2, 3]) + tcp_data_offset (syn_ack_packet @ [1, 2, 3]))
             (syn_ack_packet @ [1, 2, 3]) = [1, 2, 3]"
    using v o by (simp add: ip_header_len_def) (simp add: syn_ack_packet_def)
  have E: "ParseTCPPacket syn_ack_packet =
     Ret (Some \<lparr>SrcIP = [10, 0, 0, 2], DstIP = [10, 0, 0, 1], SrcPort = 443, DstPort = 3001,
                Seq = 7, Ack = 4294967295, Flags = 18, Window = 65535, Payload = [],
                IsIPv6 = False\<rparr>)"
    by code_simp
  from C9_ParseTCPPacket_total[of "syn_ack_packet @ [1, 2, 3]"] n(2) l' d
  have 2: "\<exists>p. ParseTCPPacket (syn_ack_packet @ [1, 2, 3]) = Ret (Some p) \<and> Payload p = [1, 2, 3]"
    by auto
  from C9_ParseTCPPacket_total[of "take 39 syn_ack_packet"] n(3)
  have 3: "ParseTCPPacket (take 39 syn_ack_packet) = Ret None" by blast
  show ?thesis using E 2 3 by blast
qed

section \<open>Properties of the socket\<close>

lemma sendPacket_state: "sendPacket (s\<lparr>state := x\<rparr>) f p = sendPacket s f p"
  by (simp add: sendPacket_def)

lemma turn_wait_le: "turn_wait a \<le> ConnTimeout"
  by (simp add: turn_wait_def select_time_def split: write_result.splits select_event.splits)

lemma turn_wait_TimedOut: "select a = TimedOut \<Longrightarrow> turn_wait a = ConnTimeout"
  by (simp add: turn_wait_def select_time_def split: write_result.splits)

lemma sum_list_map_le: "(\<And>x. f x \<le> (c :: nat)) \<Longrightarrow> sum_list (map f xs) \<le> length xs * c"
proof (induction xs)
  case Nil
  then show ?case by simp
next
  case (Cons x xs)
  have "f x + sum_list (map f xs) \<le> c + length xs * c"
    using Cons.prems Cons.IH by (intro add_mono) simp_all
  then show ?case by simp
qed

lemma connect_loop_timeout:
  assumes q: "\<forall>j<RetryCount. no_synack (env j) \<and> select (env j) \<noteq> CloseChan \<and>
                syn_write (env j) \<noteq> WriteBlocked"
  shows "n = RetryCount - i \<Longrightarrow> i \<le> RetryCount \<Longrightarrow>
     connect_loop env i s sent waits =
       Ret (Some (ConnectionTimeout RetryCount), s\<lparr>state := StateClosed\<rparr>,
            sent @ replicate n (sendPacket s SYN []),
            waits @ map (\<lambda>j. turn_wait (env j)) [i..<RetryCount])"
proof (induction n arbitrary: i sent waits)
  case 0
  then have "\<not> i < RetryCount" by simp
  then show ?case by (subst connect_loop.simps) simp
next
  case (Suc n)
  then have i: "i < RetryCount" and n: "n = RetryCount - (i + 1)" and le: "i + 1 \<le> RetryCount"
    by simp_all
  have IH: "connect_loop env (i + 1) s (sent @ [sendPacket s SYN []]) (waits @ [turn_wait (env i)]) =
       Ret (Some (ConnectionTimeout RetryCount), s\<lparr>state := StateClosed\<rparr>,
            (sent @ [sendPacket s SYN []]) @ replicate n (sendPacket s SYN []),
            (waits @ [turn_wait (env i)]) @ map (\<lambda>j. turn_wait (env j)) [i + 1..<RetryCount])"
    by (rule Suc.IH[OF n le])
  have r: "(sent @ [sendPacket s SYN []]) @ replicate n (sendPacket s SYN []) =
           sent @ replicate (Suc n) (sendPacket s SYN [])"
    by simp
  have u: "(waits @ [turn_wait (env i)]) @ map (\<lambda>j. turn_wait (env j)) [i + 1..<RetryCount] =
           waits @ map (\<lambda>j. turn_wait (env j)) [i..<RetryCount]"
    using upt_conv_Cons[OF i] by simp
  note IH' = IH[unfolded r u]
  from q i have qs: "no_synack (env i)" "select (env i) \<noteq> CloseChan"
    "syn_write (env i) \<noteq> WriteBlocked" by simp_all
  show ?case
  proof (cases "syn_write (env i)")
    case WriteBlocked
    then show ?thesis using qs(3) by simp
  next
    case WriteError
    then have "turn_wait (env i) = ConnTimeout" by (simp add: turn_wait_def)
    then show ?thesis
      using i IH' WriteError by (subst connect_loop.simps) (simp add: Let_def)
  next
    case Written
    then have t: "turn_wait (env i) = select_time (env i)" by (simp add: turn_wait_def)
    show ?thesis
    proof (cases "select (env i)")
      case (Incoming data)
      from ParseTCPPacket_Ret[of data] obtain p where "ParseTCPPacket data = Ret p" by blast
      with Incoming show ?thesis
        using i IH' Written qs(1) t
        by (subst connect_loop.simps)
           (auto simp add: Let_def no_synack_def split: go.splits option.splits)
    next
      case TimedOut
      then show ?thesis
        using i IH' Written t by (subst connect_loop.simps) (simp add: Let_def)
    next
      case CloseChan
      then show ?thesis using qs(2) by simp
    qed
  qed
qed

text \<open>
  C6, as amended. For a socket in Idle on which \<open>Connect\<close> is called, if no SYN|ACK packet
  arrives on its incoming queue, the socket is not closed while \<open>Connect\<close> runs, and every
  write of a SYN to the tunnel device returns, then \<open>Connect\<close> hands exactly
  \<open>RetryCount = 6\<close> SYN packets to \<open>sendPacket\<close>, one per turn of the loop, waits in each
  turn for at most \<open>ConnTimeout\<close> (3 s), that is for at most \<open>RetryCount * ConnTimeout\<close> in
  all, and for exactly that long when every \<open>select\<close> runs into its timer; it leaves the
  socket in state Closed and returns the timeout error.
\<close>

theorem C6_connect_times_out:
  assumes idle: "state s = StateIdle"
    and quiet: "\<forall>i<RetryCount. no_synack (env i)"
    and open': "\<forall>i<RetryCount. select (env i) \<noteq> CloseChan"
    and writes: "\<forall>i<RetryCount. syn_write (env i) \<noteq> WriteBlocked"
  shows "Socket_Connect s env =
           Ret (Some (ConnectionTimeout 6), s\<lparr>state := StateClosed\<rparr>,
                replicate 6 (sendPacket s SYN []),
                map (\<lambda>i. turn_wait (env i)) [0..<6]) \<and>
         (\<forall>i<6. turn_wait (env i) \<le> ConnTimeout) \<and>
         ConnTimeout = 3 * 1000000000 \<and>
         sum_list (map (\<lambda>i. turn_wait (env i)) [0..<6]) \<le> RetryCount * ConnTimeout \<and>
         ((\<forall>i<RetryCount. select (env i) = TimedOut) \<longrightarrow>
            sum_list (map (\<lambda>i. turn_wait (env i)) [0..<6]) = RetryCount * ConnTimeout)"
proof -
  have q: "\<forall>j<RetryCount. no_synack (env j) \<and> select (env j) \<noteq> CloseChan \<and>
             syn_write (env j) \<noteq> WriteBlocked"
    using quiet open' writes by simp
  have "connect_loop env 0 (s\<lparr>state := StateSynSent\<rparr>) [] [] =
       Ret (Some (ConnectionTimeout RetryCount), s\<lparr>state := StateSynSent\<rparr>\<lparr>state := StateClosed\<rparr>,
            [] @ replicate RetryCount (sendPacket (s\<lparr>state := StateSynSent\<rparr>) SYN []),
            [] @ map (\<lambda>j. turn_wait (env j)) [0..<RetryCount])"
    by (rule connect_loop_timeout[OF q]) simp_all
  then have 1: "Socket_Connect s env =
           Ret (Some (ConnectionTimeout 6), s\<lparr>state := StateClosed\<rparr>,
                replicate 6 (sendPacket s SYN []),
                map (\<lambda>i. turn_wait (env i)) [0..<6])"
    using idle by (simp add: Socket_Connect_def sendPacket_state RetryCount_def)
  have 2: "\<forall>i<6. turn_wait (env i) \<le> ConnTimeout" by (simp add: turn_wait_le)
  have 3: "ConnTimeout = 3 * 1000000000" by (simp add: ConnTimeout_def Second_def)
  have "sum_list (map (\<lambda>i. turn_wait (env i)) [0..<6]) \<le> length [0..<6::nat] * ConnTimeout"
    by (rule sum_list_map_le) (rule turn_wait_le)
  then have 4: "sum_list (map (\<lambda>i. turn_wait (env i)) [0..<6]) \<le> RetryCount * ConnTimeout"
    by (simp add: RetryCount_def)
  have 5: "sum_list (map (\<lambda>i. turn_wait (env i)) [0..<6]) = RetryCount * ConnTimeout"
    if "\<forall>i<RetryCount. select (env i) = TimedOut"
  proof -
    have m: "map (\<lambda>i. turn_wait (env i)) [0..<6] = map (\<lambda>i. ConnTimeout) [0..<6]"
      using that by (intro map_cong refl) (simp add: turn_wait_TimedOut RetryCount_def)
    have "sum_list (map (\<lambda>i::nat. ConnTimeout) [0..<6]) = RetryCount * ConnTimeout"
      by (simp add: sum_list_triv RetryCount_def)
    then show ?thesis unfolding m .
  qed
  show ?thesis using 1 2 3 4 5 by blast
qed

text \<open>C6 at a socket to which nothing arrives: six SYNs and six waits of 3 s.\<close>

theorem C6_witness:
  "Socket_Connect example_socket env_silent =
     Ret (Some (ConnectionTimeout 6), example_socket\<lparr>state := StateClosed\<rparr>,
          replicate 6 (sendPacket example_socket SYN []),
          map (\<lambda>i. turn_wait (env_silent i)) [0..<6]) \<and>
   sum_list (map (\<lambda>i. turn_wait (env_silent i)) [0..<6]) = RetryCount * ConnTimeout"
proof -
  have 1: "state example_socket = StateIdle" by (simp add: example_socket_def newSocket_def)
  have 2: "\<forall>i<RetryCount. no_synack (env_silent i)" by (simp add: no_synack_def env_silent_def)
  have 3: "\<forall>i<RetryCount. select (env_silent i) \<noteq> CloseChan" by (simp add: env_silent_def)
  have 4: "\<forall>i<RetryCount. syn_write (env_silent i) \<noteq> WriteBlocked" by (simp add: env_silent_def)
  have 5: "\<forall>i<RetryCount. select (env_silent i) = TimedOut" by (simp add: env_silent_def)
  note T = C6_connect_times_out[OF 1 2 3 4]
  from T[THEN conjunct1] T[THEN conjunct2, THEN conjunct2, THEN conjunct2, THEN conjunct2, THEN mp, OF 5]
  show ?thesis by (rule conjI)
qed

text \<open>
  The claim C6 as stated, with no condition on closing or on the writes, fails. No packet
  arrives in either run. In the first \<open>closeChan\<close> fires in the first \<open>select\<close>, after one
  second, and \<open>Connect\<close> returns "socket closed during connect" after a single SYN. In
  the second the first write to the device does not return, and neither does \<open>Connect\<close>.
\<close>

theorem C6_counterexample:
  "state example_socket = StateIdle \<and>
   no_synack (env_closing 0) \<and>
   Socket_Connect example_socket env_closing =
     Ret (Some ClosedDuringConnect,
          example_socket\<lparr>closed := True, state := StateClosed, closeChan := True\<rparr>,
          [sendPacket example_socket SYN []], [Second]) \<and>
   no_synack (env_blocked 0) \<and>
   Socket_Connect example_socket env_blocked = Blocks"
  by (simp add: Socket_Connect_def connect_loop.simps[of _ 0] RetryCount_def env_closing_def
      env_blocked_def no_synack_def closed_by_Close_def example_socket_def newSocket_def
      sendPacket_def select_time_def ConnTimeout_def Second_def)

lemma Send_seq:
  "Send s fails data = (None, s', sent) \<Longrightarrow> seq s' = seq s + word_of_int (len data)"
  by (auto simp add: Send_def split: if_splits)

lemma Send_error_unchanged:
  "Send s fails data = (Some e, s', sent) \<Longrightarrow> s' = s"
  by (auto simp add: Send_def split: if_splits)

lemma unat_seq_add:
  "unat ((w :: 32 word) + word_of_int (len data)) = (unat w + length data) mod 2 ^ 32"
  by (simp add: len_def unat_word_ariths unat_of_nat mod_add_right_eq)

lemma Send_all_seq:
  "seq (fst (Send_all s xs)) = seq s + word_of_nat (snd (Send_all s xs))"
proof (induction xs arbitrary: s)
  case Nil
  then show ?case by simp
next
  case (Cons x xs)
  obtain fails data where x: "x = (fails, data)" by (cases x)
  obtain r s' sent where S: "Send s fails data = (r, s', sent)" by (cases "Send s fails data")
  show ?case
  proof (cases r)
    case None
    then have "seq s' = seq s + word_of_int (len data)" using S Send_seq by blast
    then show ?thesis
      using x S None Cons.IH[of s'] by (simp add: split_beta len_def)
  next
    case (Some e)
    then have "s' = s" using S Send_error_unchanged by blast
    then show ?thesis using x S Some Cons.IH[of s] by simp
  qed
qed

text \<open>
  C7. \<open>Send\<close> returns an error and leaves the socket as it is whenever the state is not
  Established, whenever the socket is closed, and so after \<open>Close\<close>. A \<open>Send\<close> that
  returns no error was made in state Established and advances \<open>seq\<close> by the length of the
  data modulo \<open>2^32\<close>. Hence over any series of sends \<open>seq\<close> moves forward by the number
  of bytes of the sends that succeeded, modulo \<open>2^32\<close>.
\<close>

theorem C7_send_requires_established_and_advances_seq:
  "(state s \<noteq> StateEstablished \<longrightarrow> (\<exists>e. Send s write_fails data = (Some e, s, []))) \<and>
   (closed s \<longrightarrow> (\<exists>e. Send s write_fails data = (Some e, s, []))) \<and>
   (\<exists>e. Send (closed_by_Close s) write_fails data = (Some e, closed_by_Close s, [])) \<and>
   (\<forall>s' sent. Send s write_fails data = (None, s', sent) \<longrightarrow>
      state s = StateEstablished \<and>
      seq s' = seq s + word_of_int (len data) \<and>
      unat (seq s') = (unat (seq s) + length data) mod 2 ^ 32) \<and>
   unat (seq (fst (Send_all s sends))) = (unat (seq s) + snd (Send_all s sends)) mod 2 ^ 32"
proof -
  have 1: "state s \<noteq> StateEstablished \<longrightarrow> (\<exists>e. Send s write_fails data = (Some e, s, []))"
    by (simp add: Send_def)
  have 2: "closed s \<longrightarrow> (\<exists>e. Send s write_fails data = (Some e, s, []))"
    by (simp add: Send_def)
  have 3: "\<exists>e. Send (closed_by_Close s) write_fails data = (Some e, closed_by_Close s, [])"
    by (simp add: Send_def closed_by_Close_def)
  have 4: "\<forall>s' sent. Send s write_fails data = (None, s', sent) \<longrightarrow>
      state s = StateEstablished \<and>
      seq s' = seq s + word_of_int (len data) \<and>
      unat (seq s') = (unat (seq s) + length data) mod 2 ^ 32"
    using unat_seq_add[of "seq s" data] by (auto simp add: Send_def split: if_splits)
  have 5: "unat (seq (fst (Send_all s sends))) = (unat (seq s) + snd (Send_all s sends)) mod 2 ^ 32"
    by (simp add: Send_all_seq unat_word_ariths unat_of_nat mod_add_right_eq)
  show ?thesis using 1 2 3 4 5 by blast
qed

text \<open>C7 at a socket whose \<open>seq\<close> wraps around, and at a socket that is still Idle.\<close>

theorem C7_witness:
  "Send established_socket False [1, 2, 3] =
     (None, established_socket\<lparr>seq := 1\<rparr>, [sendPacket established_socket ACK [1, 2, 3]]) \<and>
   unat (seq (established_socket\<lparr>seq := 1\<rparr>)) = (unat (seq established_socket) + 3) mod 2 ^ 32 \<and>
   (\<exists>e. Send example_socket False [1, 2, 3] = (Some e, example_socket, []))"
proof -
  have E: "Send established_socket False [1, 2, 3] =
     (None, established_socket\<lparr>seq := 1\<rparr>, [sendPacket established_socket ACK [1, 2, 3]])"
    by (simp add: Send_def established_socket_def example_socket_def newSocket_def len_def)
  have i: "state example_socket \<noteq> StateEstablished"
    by (simp add: example_socket_def newSocket_def)
  note T = C7_send_requires_established_and_advances_seq[of established_socket False "[1, 2, 3]" "[]"]
  note T4 = T[THEN conjunct2, THEN conjunct2, THEN conjunct2, THEN conjunct1, rule_format, OF E]
  have l: "length [1, 2, 3 :: byte] = 3" by simp
  have 1: "unat (seq (established_socket\<lparr>seq := 1\<rparr>)) = (unat (seq established_socket) + 3) mod 2 ^ 32"
    by (rule T4[THEN conjunct2, THEN conjunct2, unfolded l])
  note U = C7_send_requires_established_and_advances_seq[of example_socket False "[1, 2, 3]" "[]"]
  have 2: "\<exists>e. Send example_socket False [1, 2, 3] = (Some e, example_socket, [])"
    using U[THEN conjunct1] i by (rule mp)
  show ?thesis using E 1 2 by blast
qed

section \<open>Properties of the stack\<close>

lemma bind_go_Ret: "bind_go m f = Ret y \<Longrightarrow> \<exists>x. m = Ret x \<and> f x = Ret y"
  by (cases m) (simp_all add: bind_go_def)

lemma unregisterSocket_free:
  "\<not> mu st \<Longrightarrow>
   unregisterSocket str st l r =
     Ret (st\<lparr>sockets := AList.delete (newAddrTuple str l r) (sockets st)\<rparr>)"
  by (simp add: unregisterSocket_def mu_Lock_def mu_Unlock_def bind_go_def)

lemma unregisterSocket_held: "mu st \<Longrightarrow> unregisterSocket str st l r = Blocks"
  by (simp add: unregisterSocket_def mu_Lock_def bind_go_def)

lemma unregisterSocket_stopChan:
  assumes "unregisterSocket str st l r = Ret st'"
  shows "stopChan st' = stopChan st"
proof (cases "mu st")
  case True
  then show ?thesis using assms by (simp add: unregisterSocket_held)
next
  case False
  then show ?thesis using assms unregisterSocket_free[OF False, of str l r] by auto
qed

lemma Socket_Close_stopChan:
  assumes "Socket_Close str st r = Ret st'"
  shows "stopChan st' = stopChan st"
proof (cases "closed (heap st r)")
  case True
  then show ?thesis using assms by (simp add: Socket_Close_def)
next
  case False
  show ?thesis
  proof (cases "closeChan (heap st r)")
    case True
    then show ?thesis using assms False by (simp add: Socket_Close_def)
  next
    case cc: False
    let ?s = "closed_by_Close (heap st r)"
    let ?st = "st\<lparr>heap := (heap st)(r := ?s)\<rparr>"
    show ?thesis
    proof (cases "has_stack ?s")
      case True
      then have "unregisterSocket str ?st (localAddr ?s) (remoteAddr ?s) = Ret st'"
        using assms False cc by (simp add: Socket_Close_def Let_def)
      from unregisterSocket_stopChan[OF this] show ?thesis by simp
    next
      case F: False
      then have "st' = ?st" using assms False cc by (simp add: Socket_Close_def Let_def)
      then show ?thesis by simp
    qed
  qed
qed

lemma close_each_stopChan:
  "close_each str rs st = Ret st' \<Longrightarrow> stopChan st' = stopChan st"
proof (induction rs arbitrary: st)
  case Nil
  then show ?case by simp
next
  case (Cons r rs)
  from Cons.prems have "bind_go (Socket_Close str st r) (close_each str rs) = Ret st'" by simp
  from bind_go_Ret[OF this] obtain st1 where
    1: "Socket_Close str st r = Ret st1" and 2: "close_each str rs st1 = Ret st'" by blast
  from Cons.IH[OF 2] Socket_Close_stopChan[OF 1] show ?case by simp
qed

lemma Stack_Close_stopChan:
  assumes "Stack_Close str st = Ret st'"
  shows "\<not> stopChan st \<and> stopChan st'"
proof -
  have n: "\<not> stopChan st"
  proof
    assume "stopChan st"
    then have "Stack_Close str st = Panics" by (simp add: Stack_Close_def)
    with assms show False by simp
  qed
  let ?st1 = "st\<lparr>stopChan := True\<rparr>"
  have "bind_go (close_tuns (tuns ?st1)) (\<lambda>tuns'.
          bind_go (mu_Lock (?st1\<lparr>tuns := tuns'\<rparr>)) (\<lambda>st.
          bind_go (close_each str (map snd (sockets st)) st) (\<lambda>st.
          Ret (mu_Unlock (st\<lparr>sockets := []\<rparr>))))) = Ret st'"
    using assms n by (simp add: Stack_Close_def Let_def)
  from bind_go_Ret[OF this] obtain tuns' where
    a: "bind_go (mu_Lock (?st1\<lparr>tuns := tuns'\<rparr>)) (\<lambda>st.
          bind_go (close_each str (map snd (sockets st)) st) (\<lambda>st.
          Ret (mu_Unlock (st\<lparr>sockets := []\<rparr>)))) = Ret st'" by blast
  from bind_go_Ret[OF a] obtain st3 where
    3: "mu_Lock (?st1\<lparr>tuns := tuns'\<rparr>) = Ret st3"
    and b: "bind_go (close_each str (map snd (sockets st3)) st3) (\<lambda>st.
          Ret (mu_Unlock (st\<lparr>sockets := []\<rparr>))) = Ret st'" by blast
  from bind_go_Ret[OF b] obtain st4 where
    4: "close_each str (map snd (sockets st3)) st3 = Ret st4"
    and 5: "Ret (mu_Unlock (st4\<lparr>sockets := []\<rparr>)) = Ret st'" by blast
  from 3 have "stopChan st3" by (cases "mu st") (auto simp add: mu_Lock_def)
  with close_each_stopChan[OF 4] have "stopChan st4" by simp
  with 5 have "stopChan st'" by (auto simp add: mu_Unlock_def)
  with n show ?thesis by simp
qed

text \<open>
  \<open>Stack.Close\<close> does not always return. It waits behind a packet reader that keeps the
  lock of a device, and it closes the registered sockets while it holds the mutex of the
  stack, which \<open>Socket.Close\<close> takes again in \<open>unregisterSocket\<close>.
\<close>

lemma Stack_Close_reader_blocks:
  assumes "\<not> stopChan st" "tuns st = t # ts" "reader_keeps_lock t"
  shows "Stack_Close str st = Blocks"
  using assms by (simp add: Stack_Close_def Let_def Tun_Close_def bind_go_def)

lemma Stack_Close_open_socket_blocks:
  assumes "\<not> stopChan st" "\<not> mu st" "close_tuns (tuns st) = Ret ts"
    "sockets st = (t, r) # rest"
    "\<not> closed (heap st r)" "\<not> closeChan (heap st r)" "has_stack (heap st r)"
  shows "Stack_Close str st = Blocks"
  using assms
  by (simp add: Stack_Close_def Let_def mu_Lock_def bind_go_def Socket_Close_def
      closed_by_Close_def unregisterSocket_held)

text \<open>
  C8. \<open>Stack.Close\<close> is not idempotent: it has no \<open>closed\<close> flag, unlike \<open>Socket.Close\<close>,
  \<open>Tun.Close\<close> and \<open>FakeTCPBind.Close\<close>, and its first statement closes \<open>stopChan\<close>.
  Whenever a call of \<open>Close\<close> returns, a second call on the same stack panics at
  \<open>close(s.stopChan)\<close> instead of returning nil.
\<close>

theorem C8_second_Close_panics:
  assumes "Stack_Close str st = Ret st'"
  shows "Stack_Close str st' = Panics"
proof -
  from Stack_Close_stopChan[OF assms] have "stopChan st'" by simp
  then show ?thesis unfolding Stack_Close_def by simp
qed

text \<open>
  C8 at a new stack without a device, and at one with a device whose reader lets go of
  the lock: the first \<open>Close\<close> returns, the second panics.
\<close>

theorem C8_witness:
  "Stack_Close example_str (NewStack [] [10, 0, 0, 1] []) =
     Ret ((NewStack [] [10, 0, 0, 1] [])\<lparr>stopChan := True\<rparr>) \<and>
   Stack_Close example_str ((NewStack [] [10, 0, 0, 1] [])\<lparr>stopChan := True\<rparr>) = Panics \<and>
   Stack_Close example_str example_stack =
     Ret (example_stack\<lparr>stopChan := True,
            tuns := [\<lparr>tun_closed = True, reader_keeps_lock = False\<rparr>]\<rparr>) \<and>
   Stack_Close example_str
     (example_stack\<lparr>stopChan := True,
        tuns := [\<lparr>tun_closed = True, reader_keeps_lock = False\<rparr>]\<rparr>) = Panics"
proof -
  have 0: "Stack_Close example_str (NewStack [] [10, 0, 0, 1] []) =
     Ret ((NewStack [] [10, 0, 0, 1] [])\<lparr>stopChan := True\<rparr>)"
    unfolding Stack_Close_def NewStack_def
    by (simp add: mu_Lock_def mu_Unlock_def bind_go_def)
  have 1: "Stack_Close example_str example_stack =
     Ret (example_stack\<lparr>stopChan := True,
            tuns := [\<lparr>tun_closed = True, reader_keeps_lock = False\<rparr>]\<rparr>)"
    unfolding Stack_Close_def example_stack_def NewStack_def
    by (simp add: Tun_Close_def mu_Lock_def mu_Unlock_def bind_go_def)
  from 0 C8_second_Close_panics[OF 0] 1 C8_second_Close_panics[OF 1] show ?thesis by blast
qed



end
